theory Spec2Isabelle
  imports Main "HOL-Library.AList"
begin

section \<open>Python values and errors\<close>

text \<open>
  The values a setting can hold are the JSON-shaped Python values that the \<open>data\<close>
  field serialises: \<open>None\<close>, booleans, integers, strings, lists and dictionaries with
  string keys. A dictionary is an association list in insertion order; \<open>AList.update\<close>
  is item assignment and \<open>AList.delete\<close> is \<open>del d[k]\<close>. Floating point values are
  left out.
\<close>

datatype val =
    VNone
  | VBool bool
  | VInt int
  | VStr string
  | VList "val list"
  | VDict "(string \<times> val) list"

text \<open>
  Exceptions are values. \<open>UnknownSetting n\<close> is
  \<open>AttributeError('Settings has not attribute %r' % n)\<close> of \<open>lazy.py\<close>;
  \<open>NoAttribute c n\<close> is the interpreter's or \<open>_safe_super_method\<close>'s
  \<open>AttributeError("%r object has no attribute %r" % (c, n))\<close>;
  \<open>ValidationError m\<close> is a validation error built from one message (it has no
  \<open>message_dict\<close>), \<open>ValidationErrorDict d\<close> one built from a mapping of field names
  to messages; \<open>RecursionError\<close> is the interpreter's "maximum recursion depth
  exceeded"; \<open>CoercionFailure\<close> stands for whatever a Setting Definition's own
  conversion raises that is not a validation error.
\<close>

datatype error =
    UnknownSetting string
  | NoAttribute string string
  | TypeError
  | KeyError string
  | ValidationError string
  | ValidationErrorDict "(string \<times> string list) list"
  | DoesNotExist
  | MultipleObjectsReturned
  | RecursionError
  | CoercionFailure

text \<open>
  An attribute hook either raises, returns, or hands the name over to the base class
  (\<open>super(...).__setattr__\<close> and friends): the base classes belong to the interpreter
  and to the host framework, so \<open>Super\<close> marks the branch and the model stops there.
\<close>

datatype 'a outcome = Raise error | Return 'a | Super

fun truthy :: "val \<Rightarrow> bool" where
  "truthy VNone = False"
| "truthy (VBool b) = b"
| "truthy (VInt i) = (i \<noteq> 0)"
| "truthy (VStr s) = (s \<noteq> [])"
| "truthy (VList xs) = (xs \<noteq> [])"
| "truthy (VDict kvs) = (kvs \<noteq> [])"

fun type_name :: "val \<Rightarrow> string" where
  "type_name VNone = ''NoneType''"
| "type_name (VBool b) = ''bool''"
| "type_name (VInt i) = ''int''"
| "type_name (VStr s) = ''str''"
| "type_name (VList xs) = ''list''"
| "type_name (VDict kvs) = ''dict''"

fun isinstance_dict :: "val \<Rightarrow> bool" where
  "isinstance_dict (VDict kvs) = True"
| "isinstance_dict v = False"

text \<open>\<open>n in s\<close> on two strings is the substring test.\<close>

fun substring :: "string \<Rightarrow> string \<Rightarrow> bool" where
  "substring n [] = (n = [])"
| "substring n (c # cs) = (take (length n) (c # cs) = n \<or> substring n cs)"

text \<open>\<open>name in container\<close>: key membership on a dictionary, substring on a string,
  element membership on a list, \<open>TypeError\<close> on anything else.\<close>

fun py_in :: "string \<Rightarrow> val \<Rightarrow> error + bool" where
  "py_in n (VDict kvs) = Inr (map_of kvs n \<noteq> None)"
| "py_in n (VStr s) = Inr (substring n s)"
| "py_in n (VList xs) = Inr (VStr n \<in> set xs)"
| "py_in n v = Inl TypeError"

text \<open>\<open>container[name]\<close> with a string key.\<close>

fun py_getitem :: "val \<Rightarrow> string \<Rightarrow> error + val" where
  "py_getitem (VDict kvs) n = (case map_of kvs n of None \<Rightarrow> Inl (KeyError n) | Some v \<Rightarrow> Inr v)"
| "py_getitem v n = Inl TypeError"

text \<open>\<open>container[name] = value\<close> with a string key.\<close>

fun py_setitem :: "val \<Rightarrow> string \<Rightarrow> val \<Rightarrow> error + val" where
  "py_setitem (VDict kvs) n v = Inr (VDict (AList.update n v kvs))"
| "py_setitem d n v = Inl TypeError"

fun startswith :: "string \<Rightarrow> string \<Rightarrow> bool" where
  "startswith s p = (take (length p) s = p)"

section \<open>The Settings Schema\<close>

text \<open>
  \<open>AVAILABLE_SETTINGS\<close> comes from \<open>setman.utils\<close>, which is outside the given sources;
  it is a parameter of everything below. A Setting Definition carries its default, the
  conversion applied when the record is loaded (\<open>to_python\<close>) and the validation applied
  before it is stored (\<open>to_field(initial=value).clean(value)\<close>, here \<open>field_clean\<close>).
  A container groups Setting Definitions and does not nest. \<open>hasattr(settings, name)\<close> is
  \<open>map_of schema name \<noteq> None\<close>; schema objects are ordinary, truthy objects.
\<close>

datatype setting = Setting (default: val) (to_python: "val \<Rightarrow> error + val")
  (field_clean: "val \<Rightarrow> error + val")

datatype entry = Definition setting | Container "(string \<times> setting) list"

type_synonym schema = "(string \<times> entry) list"

fun is_settings_container :: "entry \<Rightarrow> bool" where
  "is_settings_container (Container c) = True"
| "is_settings_container (Definition s) = False"

definition as_schema :: "(string \<times> setting) list \<Rightarrow> schema" where
  "as_schema c = map (\<lambda>(n, s). (n, Definition s)) c"

section \<open>The Settings Record (models.py)\<close>

record Settings =
  pk :: "int option"
  data :: val

definition possible_names :: "string list" where
  "possible_names = [''create_date'', ''data'', ''id'', ''objects'', ''pk'', ''update_date'']"

definition is_setting_name :: "string \<Rightarrow> bool" where
  "is_setting_name name = (\<not> startswith name ''_'' \<and> \<not> (name \<in> set possible_names))"

text \<open>\<open>Settings.__setattr__\<close>: an unset (falsy) \<open>data\<close> becomes the empty dictionary,
  then \<open>data[name] = value\<close>.\<close>

definition Settings_setattr :: "Settings \<Rightarrow> string \<Rightarrow> val \<Rightarrow> Settings outcome" where
  "Settings_setattr self name v =
     (if \<not> is_setting_name name then Super
      else let d = (if \<not> truthy (data self) then VDict [] else data self)
           in case py_setitem d name v of
                Inl e \<Rightarrow> Raise e
              | Inr d' \<Rightarrow> Return (self\<lparr>data := d'\<rparr>))"

text \<open>\<open>Settings.__delattr__\<close>: \<open>if name in self.data: del self.data[name]\<close>.\<close>

definition Settings_delattr :: "Settings \<Rightarrow> string \<Rightarrow> Settings outcome" where
  "Settings_delattr self name =
     (if \<not> is_setting_name name then Super
      else case py_in name (data self) of
             Inl e \<Rightarrow> Raise e
           | Inr False \<Rightarrow> Return self
           | Inr True \<Rightarrow>
               (case data self of
                  VDict kvs \<Rightarrow> Return (self\<lparr>data := VDict (AList.delete name kvs)\<rparr>)
                | _ \<Rightarrow> Raise TypeError))"

text \<open>\<open>Settings.__getattr__\<close>: \<open>self.data.get(name)\<close>.\<close>

definition Settings_getattr :: "Settings \<Rightarrow> string \<Rightarrow> val outcome" where
  "Settings_getattr self name =
     (if \<not> is_setting_name name then Super
      else case data self of
             VDict kvs \<Rightarrow> Return (case map_of kvs name of None \<Rightarrow> VNone | Some v \<Rightarrow> v)
           | v \<Rightarrow> Raise (NoAttribute (type_name v) ''get''))"

subsection \<open>revert\<close>

text \<open>
  \<open>revert\<close> walks over a snapshot of the items (\<open>data.items()\<close>) and assigns into the
  dictionary it walks over. An exception in the middle leaves the assignments made so
  far, so the model returns the dictionary together with the error, if any.
  \<open>revert_app\<close> is the loop of \<open>revert(app_name)\<close> over a container's sub-mapping: a
  container holds Setting Definitions only.
\<close>

fun revert_app :: "(string \<times> setting) list \<Rightarrow> (string \<times> val) list \<Rightarrow> (string \<times> val) list
    \<Rightarrow> (string \<times> val) list" where
  "revert_app c [] d = d"
| "revert_app c ((name, v) # items) d =
     (case map_of c name of
        None \<Rightarrow> revert_app c items d
      | Some s \<Rightarrow> revert_app c items (AList.update name (default s) d))"

text \<open>\<open>self.revert(name)\<close> for a container \<open>c = getattr(AVAILABLE_SETTINGS, name)\<close>:
  \<open>self.data.get(name, {})\<close> is the stored sub-mapping, which the loop updates in
  place.\<close>

definition revert_container :: "(string \<times> setting) list \<Rightarrow> string \<Rightarrow> (string \<times> val) list
    \<Rightarrow> (string \<times> val) list \<times> error option" where
  "revert_container c name d =
     (case map_of d name of
        None \<Rightarrow> (d, None)
      | Some (VDict sub) \<Rightarrow> (AList.update name (VDict (revert_app c sub sub)) d, None)
      | Some v \<Rightarrow> (d, Some (NoAttribute (type_name v) ''items'')))"

text \<open>The top-level loop. A container stored under the empty name makes
  \<open>self.revert('')\<close> the top-level call again (\<open>if app_name\<close> is false), which revisits the
  same items until the interpreter gives up.\<close>

fun revert_top :: "schema \<Rightarrow> (string \<times> val) list \<Rightarrow> (string \<times> val) list
    \<Rightarrow> (string \<times> val) list \<times> error option" where
  "revert_top sch [] d = (d, None)"
| "revert_top sch ((name, v) # items) d =
     (case map_of sch name of
        None \<Rightarrow> revert_top sch items d
      | Some (Definition s) \<Rightarrow> revert_top sch items (AList.update name (default s) d)
      | Some (Container c) \<Rightarrow>
          (if name = [] then (d, Some RecursionError)
           else case revert_container c name d of
                  (d', Some e) \<Rightarrow> (d', Some e)
                | (d', None) \<Rightarrow> revert_top sch items d'))"

text \<open>\<open>Settings.revert(app_name=None)\<close>. With an \<open>app_name\<close>,
  \<open>getattr(AVAILABLE_SETTINGS, app_name)\<close> must exist; when it is a Setting Definition
  rather than a container, a Setting Definition is taken to have no attribute named
  like a stored key, so nothing is reverted.\<close>

definition revert :: "schema \<Rightarrow> Settings \<Rightarrow> string option \<Rightarrow> Settings \<times> error option" where
  "revert sch self app_name =
     (if app_name \<noteq> None \<and> app_name \<noteq> Some []
      then let app = the app_name in
        (case data self of
           VDict d \<Rightarrow>
             (case map_of sch app of
                None \<Rightarrow> (self, Some (NoAttribute ''AVAILABLE_SETTINGS'' app))
              | Some (Definition s) \<Rightarrow>
                  (case map_of d app of
                     None \<Rightarrow> (self, None)
                   | Some (VDict sub) \<Rightarrow> (self, None)
                   | Some v \<Rightarrow> (self, Some (NoAttribute (type_name v) ''items'')))
              | Some (Container c) \<Rightarrow>
                  (case revert_container c app d of
                     (d', e) \<Rightarrow> (self\<lparr>data := VDict d'\<rparr>, e)))
         | v \<Rightarrow> (self, Some (NoAttribute (type_name v) ''get'')))
      else
        (case data self of
           VDict d \<Rightarrow> (case revert_top sch d d of (d', e) \<Rightarrow> (self\<lparr>data := VDict d'\<rparr>, e))
         | v \<Rightarrow> (self, Some (NoAttribute (type_name v) ''items''))))"

text \<open>What the specification says \<open>revert\<close> computes, key by key: a stored key with a
  Setting Definition gets the default, a stored container sub-mapping is reverted one
  level down, any other key keeps its value.\<close>

definition reverted_app :: "(string \<times> setting) list \<Rightarrow> (string \<times> val) list \<Rightarrow> (string \<times> val) list" where
  "reverted_app c sub = map (\<lambda>(k, v). (k, case map_of c k of None \<Rightarrow> v | Some s \<Rightarrow> default s)) sub"

definition reverted :: "schema \<Rightarrow> (string \<times> val) list \<Rightarrow> (string \<times> val) list" where
  "reverted sch d =
     map (\<lambda>(k, v). (k, case map_of sch k of
                         None \<Rightarrow> v
                       | Some (Definition s) \<Rightarrow> default s
                       | Some (Container c) \<Rightarrow>
                           (case v of VDict sub \<Rightarrow> VDict (reverted_app c sub) | _ \<Rightarrow> v))) d"

text \<open>Data on which the top-level \<open>revert\<close> runs through: dictionaries have distinct
  keys, and what is stored under a container's (non-empty) name is a dictionary.\<close>

definition revertible_items :: "schema \<Rightarrow> (string \<times> val) list \<Rightarrow> bool" where
  "revertible_items sch items =
     list_all (\<lambda>(k, v). case map_of sch k of
                           Some (Container c) \<Rightarrow>
                             k \<noteq> [] \<and> (case v of VDict sub \<Rightarrow> distinct (map fst sub) | _ \<Rightarrow> False)
                         | _ \<Rightarrow> True) items"

definition revertible :: "schema \<Rightarrow> (string \<times> val) list \<Rightarrow> bool" where
  "revertible sch d = (distinct (map fst d) \<and> revertible_items sch d)"

text \<open>A stored key is \<open>settled\<close> when one more pass of the top-level loop body over it
  changes nothing and raises nothing.\<close>

definition settled :: "schema \<Rightarrow> string \<Rightarrow> (string \<times> val) list \<Rightarrow> bool" where
  "settled sch n d =
     (case map_of sch n of
        None \<Rightarrow> True
      | Some (Definition s) \<Rightarrow> map_of d n = Some (default s)
      | Some (Container c) \<Rightarrow>
          n \<noteq> [] \<and>
          (case map_of d n of
             None \<Rightarrow> True
           | Some (VDict sub) \<Rightarrow> revert_app c sub sub = sub
           | Some v \<Rightarrow> False))"

subsection \<open>validate\_unique\<close>

text \<open>
  The table is the list of stored rows. \<open>self._default_manager.exclude(**lookup).count()\<close>
  counts every row when \<open>lookup\<close> is empty (\<open>not self.pk\<close>: no key, or the key 0) and the
  rows with another key otherwise. The framework's own \<open>Model.validate_unique\<close>, called
  last, is a parameter: it gets the excluded field names, the table and the instance and
  returns its mapping of field names to messages, empty when it has no complaint.
\<close>

type_synonym messages = "(string \<times> string list) list"

type_synonym unique_check = "string list \<Rightarrow> Settings list \<Rightarrow> Settings \<Rightarrow> messages"

definition other_records :: "Settings list \<Rightarrow> Settings \<Rightarrow> Settings list" where
  "other_records db self =
     (if pk self = None \<or> pk self = Some 0 then db
      else filter (\<lambda>r. pk r \<noteq> pk self) db)"

definition validate_unique :: "unique_check \<Rightarrow> Settings list \<Rightarrow> Settings \<Rightarrow> string list \<Rightarrow> error + unit" where
  "validate_unique uc db self exclude =
     (let counter = length (other_records db self) in
      if counter \<noteq> 0 then Inl (ValidationError ''Only one Settings instance could be created.'')
      else case uc exclude db self of
             [] \<Rightarrow> Inr ()
           | errs \<Rightarrow> Inl (ValidationErrorDict errs))"

section \<open>The settings field (fields.py)\<close>

text \<open>
  \<open>SettingsField.clean\<close> walks over a snapshot of the items and assigns the cleaned
  values into the same dictionary. \<open>clean_app\<close> is the recursive call for a container
  (\<open>self.clean(value, instance, mixed)\<close>), \<open>clean_items\<close> the top-level loop. An exception
  leaves the loop at once.
\<close>

fun clean_app_items :: "(string \<times> setting) list \<Rightarrow> (string \<times> val) list \<Rightarrow> (string \<times> val) list
    \<Rightarrow> error + (string \<times> val) list" where
  "clean_app_items c [] d = Inr d"
| "clean_app_items c ((name, v) # items) d =
     (case map_of c name of
        None \<Rightarrow> clean_app_items c items d
      | Some s \<Rightarrow>
          (case field_clean s v of
             Inl e \<Rightarrow> Inl e
           | Inr v' \<Rightarrow> clean_app_items c items (AList.update name v' d)))"

definition clean_app :: "(string \<times> setting) list \<Rightarrow> val \<Rightarrow> error + val" where
  "clean_app c v =
     (case (if \<not> truthy v then VDict [] else v) of
        VDict d \<Rightarrow> (case clean_app_items c d d of Inl e \<Rightarrow> Inl e | Inr d' \<Rightarrow> Inr (VDict d'))
      | x \<Rightarrow> Inl (NoAttribute (type_name x) ''items''))"

fun clean_items :: "schema \<Rightarrow> (string \<times> val) list \<Rightarrow> (string \<times> val) list
    \<Rightarrow> error + (string \<times> val) list" where
  "clean_items sch [] d = Inr d"
| "clean_items sch ((name, v) # items) d =
     (case map_of sch name of
        None \<Rightarrow> clean_items sch items d
      | Some (Container c) \<Rightarrow>
          (case clean_app c v of
             Inl e \<Rightarrow> Inl e
           | Inr v' \<Rightarrow> clean_items sch items (AList.update name v' d))
      | Some (Definition s) \<Rightarrow>
          (case field_clean s v of
             Inl e \<Rightarrow> Inl e
           | Inr v' \<Rightarrow> clean_items sch items (AList.update name v' d)))"

definition clean :: "schema \<Rightarrow> val \<Rightarrow> error + val" where
  "clean sch v =
     (case (if \<not> truthy v then VDict [] else v) of
        VDict d \<Rightarrow> (case clean_items sch d d of Inl e \<Rightarrow> Inl e | Inr d' \<Rightarrow> Inr (VDict d'))
      | x \<Rightarrow> Inl (NoAttribute (type_name x) ''items''))"

text \<open>\<open>_settings_to_python\<close>, applied to the decoded JSON when a row is loaded, has the
  same shape with \<open>to_python\<close> in the place of the field's \<open>clean\<close>.\<close>

fun app_to_python_items :: "(string \<times> setting) list \<Rightarrow> (string \<times> val) list \<Rightarrow> (string \<times> val) list
    \<Rightarrow> error + (string \<times> val) list" where
  "app_to_python_items c [] d = Inr d"
| "app_to_python_items c ((key, v) # items) d =
     (case map_of c key of
        None \<Rightarrow> app_to_python_items c items d
      | Some s \<Rightarrow>
          (case to_python s v of
             Inl e \<Rightarrow> Inl e
           | Inr v' \<Rightarrow> app_to_python_items c items (AList.update key v' d)))"

definition app_to_python :: "(string \<times> setting) list \<Rightarrow> val \<Rightarrow> error + val" where
  "app_to_python c v =
     (case v of
        VDict d \<Rightarrow> (case app_to_python_items c d d of Inl e \<Rightarrow> Inl e | Inr d' \<Rightarrow> Inr (VDict d'))
      | x \<Rightarrow> Inl (NoAttribute (type_name x) ''items''))"

fun settings_to_python_items :: "schema \<Rightarrow> (string \<times> val) list \<Rightarrow> (string \<times> val) list
    \<Rightarrow> error + (string \<times> val) list" where
  "settings_to_python_items sch [] d = Inr d"
| "settings_to_python_items sch ((key, v) # items) d =
     (case map_of sch key of
        None \<Rightarrow> settings_to_python_items sch items d
      | Some (Container c) \<Rightarrow>
          (case app_to_python c v of
             Inl e \<Rightarrow> Inl e
           | Inr v' \<Rightarrow> settings_to_python_items sch items (AList.update key v' d))
      | Some (Definition s) \<Rightarrow>
          (case to_python s v of
             Inl e \<Rightarrow> Inl e
           | Inr v' \<Rightarrow> settings_to_python_items sch items (AList.update key v' d)))"

definition settings_to_python :: "schema \<Rightarrow> val \<Rightarrow> error + val" where
  "settings_to_python sch v =
     (case v of
        VDict d \<Rightarrow>
          (case settings_to_python_items sch d d of Inl e \<Rightarrow> Inl e | Inr d' \<Rightarrow> Inr (VDict d'))
      | x \<Rightarrow> Inl (NoAttribute (type_name x) ''items''))"

section \<open>Validation before a save (models.py)\<close>

text \<open>
  \<open>full_clean\<close> is the framework's: it cleans the fields (a blank field holding an empty
  value is skipped; a validation error of the \<open>data\<close> field is collected under the
  field's name, any other exception propagates), then calls \<open>validate_unique\<close> with the
  failed fields excluded and collects what it raises (a single message goes under
  \<open>__all__\<close>), and raises the collected mapping when it is not empty. The result is
  the instance as cleaning left it (with the cleaned \<open>data\<close>; the assignments a failed
  \<open>clean\<close> made before it raised are not tracked, the instance is not stored then) and
  the exception raised, if any.
\<close>

definition empty_values :: "val list" where
  "empty_values = [VNone, VStr [], VList [], VDict []]"

fun update_error_dict :: "messages \<Rightarrow> messages \<Rightarrow> messages" where
  "update_error_dict [] errors = errors"
| "update_error_dict ((k, ms) # rest) errors =
     update_error_dict rest
       (case map_of errors k of
          None \<Rightarrow> errors @ [(k, ms)]
        | Some old \<Rightarrow> AList.update k (old @ ms) errors)"

definition clean_fields :: "schema \<Rightarrow> Settings \<Rightarrow> error + (Settings \<times> messages)" where
  "clean_fields sch self =
     (if data self \<in> set empty_values then Inr (self, [])
      else case clean sch (data self) of
             Inr d' \<Rightarrow> Inr (self\<lparr>data := d'\<rparr>, [])
           | Inl (ValidationError m) \<Rightarrow> Inr (self, [(''data'', [m])])
           | Inl (ValidationErrorDict md) \<Rightarrow> Inr (self, [(''data'', concat (map snd md))])
           | Inl e \<Rightarrow> Inl e)"

definition full_clean :: "schema \<Rightarrow> unique_check \<Rightarrow> Settings list \<Rightarrow> Settings
    \<Rightarrow> Settings \<times> error option" where
  "full_clean sch uc db self =
     (case clean_fields sch self of
        Inl e \<Rightarrow> (self, Some e)
      | Inr (self', errors) \<Rightarrow>
          (case (case validate_unique uc db self' (map fst errors) of
                   Inr u \<Rightarrow> Inr errors
                 | Inl (ValidationError m) \<Rightarrow> Inr (update_error_dict [(''__all__'', [m])] errors)
                 | Inl (ValidationErrorDict md) \<Rightarrow> Inr (update_error_dict md errors)
                 | Inl e \<Rightarrow> Inl e) of
             Inl e \<Rightarrow> (self', Some e)
           | Inr [] \<Rightarrow> (self', None)
           | Inr errs \<Rightarrow> (self', Some (ValidationErrorDict errs))))"

text \<open>\<open>validate_settings\<close>, the \<open>pre_save\<close> receiver. Only a \<open>ValidationErrorDict\<close> has a
  \<open>message_dict\<close>; \<open>error.message_dict.keys() == ['id']\<close> compares the list of keys.\<close>

definition validate_settings :: "schema \<Rightarrow> unique_check \<Rightarrow> Settings list \<Rightarrow> Settings
    \<Rightarrow> error + Settings" where
  "validate_settings sch uc db instance =
     (case full_clean sch uc db instance of
        (instance', None) \<Rightarrow> Inr instance'
      | (instance', Some (ValidationErrorDict message_dict)) \<Rightarrow>
          if map fst message_dict = [''id''] then Inr instance'
          else Inl (ValidationErrorDict message_dict)
      | (instance', Some e) \<Rightarrow> Inl e)"

section \<open>The process state: host configuration, shared cache, table\<close>

record world =
  django :: "(string \<times> val) list"
  cache :: "(string \<times> Settings) list"
  db :: "Settings list"

definition CACHE_KEY :: string where
  "CACHE_KEY = ''setman__custom_cache''"

text \<open>Modelled from the spec: \<open>setman.managers\<close> is outside the given sources. The
  specification names one constant cache key, \<open>"setman__custom_cache"\<close>, so the key that
  \<open>models.py\<close> imports from the manager module is that one.\<close>

definition managers_CACHE_KEY :: string where
  "managers_CACHE_KEY = ''setman__custom_cache''"

text \<open>\<open>LazySettings._clear\<close> and the \<open>post_save\<close> receiver \<open>clear_settings_cache\<close>.\<close>

definition LazySettings_clear :: "world \<Rightarrow> world" where
  "LazySettings_clear w =
     (if map_of (cache w) CACHE_KEY \<noteq> None
      then w\<lparr>cache := AList.delete CACHE_KEY (cache w)\<rparr> else w)"

definition clear_settings_cache :: "world \<Rightarrow> world" where
  "clear_settings_cache w =
     (let w' = LazySettings_clear w in
      if map_of (cache w') managers_CACHE_KEY \<noteq> None
      then w'\<lparr>cache := AList.delete managers_CACHE_KEY (cache w')\<rparr> else w')"

text \<open>The framework's write of one row: an instance with a key that is in the table
  replaces that row, any other instance is inserted, with the next free key when it has
  none.\<close>

definition next_pk :: "Settings list \<Rightarrow> int" where
  "next_pk rows = 1 + foldr (\<lambda>r m. case pk r of None \<Rightarrow> m | Some k \<Rightarrow> max k m) rows 0"

definition save_base :: "Settings list \<Rightarrow> Settings \<Rightarrow> Settings \<times> Settings list" where
  "save_base rows self =
     (case pk self of
        None \<Rightarrow> (let self' = self\<lparr>pk := Some (next_pk rows)\<rparr> in (self', rows @ [self']))
      | Some k \<Rightarrow>
          if list_ex (\<lambda>r. pk r = Some k) rows
          then (self, map (\<lambda>r. if pk r = Some k then self else r) rows)
          else (self, rows @ [self]))"

text \<open>\<open>instance.save()\<close>: the \<open>pre_save\<close> receiver, the write, the \<open>post_save\<close> receiver.\<close>

definition save :: "schema \<Rightarrow> unique_check \<Rightarrow> world \<Rightarrow> Settings \<Rightarrow> error + (Settings \<times> world)" where
  "save sch uc w self =
     (case validate_settings sch uc (db w) self of
        Inl e \<Rightarrow> Inl e
      | Inr self' \<Rightarrow>
          (case save_base (db w) self' of
             (self'', rows) \<Rightarrow> Inr (self'', clear_settings_cache (w\<lparr>db := rows\<rparr>))))"

text \<open>Modelled from the spec: the manager of \<open>setman.managers\<close> is outside the given
  sources. The specification gives it two queries: "get the one row (fails distinctly if
  zero or if ever more than one)" and "create a row with given data". A loaded row has
  its decoded \<open>data\<close> converted by \<open>_settings_to_python\<close>.\<close>

definition objects_get :: "schema \<Rightarrow> world \<Rightarrow> error + Settings" where
  "objects_get sch w =
     (case db w of
        [] \<Rightarrow> Inl DoesNotExist
      | [r] \<Rightarrow> (case settings_to_python sch (data r) of
                  Inl e \<Rightarrow> Inl e
                | Inr d \<Rightarrow> Inr (r\<lparr>data := d\<rparr>))
      | _ \<Rightarrow> Inl MultipleObjectsReturned)"

definition objects_create :: "schema \<Rightarrow> unique_check \<Rightarrow> world \<Rightarrow> val \<Rightarrow> error + (Settings \<times> world)" where
  "objects_create sch uc w d = save sch uc w \<lparr>pk = None, data = d\<rparr>"

section \<open>The Lazy Settings Proxy (lazy.py)\<close>

text \<open>
  The micro-cache is an \<open>ExpiringDict(max_len=20, max_age_seconds=10)\<close> of the
  \<open>expiringdict\<close> library: an ordered dictionary of values with the time they were stored.
  The clock is an integer number of seconds, read once per call. A resolved attribute is
  a plain value or a scoped child proxy.
\<close>

datatype LazySettings =
  LazySettings (l_settings: schema) (l_prefix: "string option")
    (l_parent: "LazySettings option") (l_cache: "(string \<times> resolved \<times> int) list")
and resolved = Value val | Proxy LazySettings

definition max_len :: nat where "max_len = 20"

definition max_age :: int where "max_age = 10"

definition with_cache :: "LazySettings \<Rightarrow> (string \<times> resolved \<times> int) list \<Rightarrow> LazySettings" where
  "with_cache self c = LazySettings (l_settings self) (l_prefix self) (l_parent self) c"

text \<open>\<open>ExpiringDict.__getitem__\<close> behind \<open>get\<close> and \<open>__contains__\<close>: an entry older than
  \<open>max_age\<close> is deleted and counts as absent.\<close>

definition ExpiringDict_get :: "int \<Rightarrow> (string \<times> resolved \<times> int) list \<Rightarrow> string
    \<Rightarrow> resolved option \<times> (string \<times> resolved \<times> int) list" where
  "ExpiringDict_get now c key =
     (case map_of c key of
        None \<Rightarrow> (None, c)
      | Some (v, t) \<Rightarrow> if now - t < max_age then (Some v, c) else (None, AList.delete key c))"

text \<open>\<open>ExpiringDict.__setitem__\<close>: a full dictionary first drops the key itself, or else
  its oldest entry.\<close>

definition ExpiringDict_set :: "int \<Rightarrow> (string \<times> resolved \<times> int) list \<Rightarrow> string \<Rightarrow> resolved
    \<Rightarrow> (string \<times> resolved \<times> int) list" where
  "ExpiringDict_set now c key v =
     (let c' = (if length c = max_len
                then (case ExpiringDict_get now c key of
                        (Some old, c1) \<Rightarrow> AList.delete key c1
                      | (None, c1) \<Rightarrow> tl c1)
                else c)
      in AList.update key (v, now) c')"

text \<open>\<open>LazySettings.__init__\<close>: \<open>settings or AVAILABLE_SETTINGS\<close>, an empty micro-cache.\<close>

definition LazySettings_init :: "schema \<Rightarrow> schema option \<Rightarrow> string option \<Rightarrow> LazySettings option
    \<Rightarrow> LazySettings" where
  "LazySettings_init sch settings prefix parent =
     LazySettings (case settings of None \<Rightarrow> sch | Some s \<Rightarrow> s) prefix parent []"

text \<open>\<open>_get_custom_settings\<close> and the \<open>_custom\<close> property: the parent's record for a
  scoped proxy, else the Resolution Cache entry, else the row, loaded or created, which
  is then put into the cache.\<close>

definition get_custom_settings :: "schema \<Rightarrow> unique_check \<Rightarrow> world \<Rightarrow> error + (Settings \<times> world)" where
  "get_custom_settings sch uc w =
     (case objects_get sch w of
        Inr r \<Rightarrow> Inr (r, w)
      | Inl DoesNotExist \<Rightarrow> objects_create sch uc w (VDict [])
      | Inl e \<Rightarrow> Inl e)"

fun custom :: "schema \<Rightarrow> unique_check \<Rightarrow> world \<Rightarrow> LazySettings \<Rightarrow> error + (Settings \<times> world)" where
  "custom sch uc w (LazySettings s p (Some parent) c) = custom sch uc w parent"
| "custom sch uc w (LazySettings s p None c) =
     (case map_of (cache w) CACHE_KEY of
        Some from_cache \<Rightarrow> Inr (from_cache, w)
      | None \<Rightarrow>
          (case get_custom_settings sch uc w of
             Inl e \<Rightarrow> Inl e
           | Inr (r, w') \<Rightarrow> Inr (r, w'\<lparr>cache := AList.update CACHE_KEY r (cache w')\<rparr>)))"

definition prefix_set :: "LazySettings \<Rightarrow> bool" where
  "prefix_set self = (l_prefix self \<noteq> None \<and> l_prefix self \<noteq> Some [])"

text \<open>\<open>_get_setting_value\<close>, branch by branch. The three tests of the first branch
  short-circuit; each may raise on data that is not a dictionary.\<close>

definition in_app_data :: "val \<Rightarrow> LazySettings \<Rightarrow> string \<Rightarrow> error + bool" where
  "in_app_data d self name =
     (if \<not> prefix_set self then Inr False
      else case py_in (the (l_prefix self)) d of
             Inl e \<Rightarrow> Inl e
           | Inr False \<Rightarrow> Inr False
           | Inr True \<Rightarrow>
               (case py_getitem d (the (l_prefix self)) of
                  Inl e \<Rightarrow> Inl e
                | Inr sub \<Rightarrow> py_in name sub))"

definition in_project_data :: "val \<Rightarrow> string \<Rightarrow> error + bool" where
  "in_project_data d name =
     (case py_in name d of
        Inl e \<Rightarrow> Inl e
      | Inr False \<Rightarrow> Inr False
      | Inr True \<Rightarrow>
          (case py_getitem d name of
             Inl e \<Rightarrow> Inl e
           | Inr v \<Rightarrow> Inr (\<not> isinstance_dict v)))"

definition lookup_setting :: "val \<Rightarrow> (string \<times> val) list \<Rightarrow> LazySettings \<Rightarrow> string
    \<Rightarrow> error + resolved" where
  "lookup_setting d dj self name =
     (case in_app_data d self name of
        Inl e \<Rightarrow> Inl e
      | Inr True \<Rightarrow>
          (case py_getitem d (the (l_prefix self)) of
             Inl e \<Rightarrow> Inl e
           | Inr sub \<Rightarrow> (case py_getitem sub name of Inl e \<Rightarrow> Inl e | Inr v \<Rightarrow> Inr (Value v)))
      | Inr False \<Rightarrow>
          (case in_project_data d name of
             Inl e \<Rightarrow> Inl e
           | Inr True \<Rightarrow> (case py_getitem d name of Inl e \<Rightarrow> Inl e | Inr v \<Rightarrow> Inr (Value v))
           | Inr False \<Rightarrow>
               (case map_of dj name of
                  Some v \<Rightarrow> Inr (Value v)
                | None \<Rightarrow>
                    (case map_of (l_settings self) name of
                       Some (Container c) \<Rightarrow>
                         Inr (Proxy (LazySettings (as_schema c) (Some name) (Some self) []))
                     | Some (Definition s) \<Rightarrow> Inr (Value (default s))
                     | None \<Rightarrow> Inl (UnknownSetting name)))))"

definition get_setting_value :: "schema \<Rightarrow> unique_check \<Rightarrow> world \<Rightarrow> LazySettings \<Rightarrow> string
    \<Rightarrow> (error + resolved) \<times> world" where
  "get_setting_value sch uc w self name =
     (case custom sch uc w self of
        Inl e \<Rightarrow> (Inl e, w)
      | Inr (r, w') \<Rightarrow> (lookup_setting (data r) (django w') self name, w'))"

text \<open>\<open>LazySettings.__getattr__\<close>. For a name with a leading underscore
  \<open>_safe_super_method\<close> finds no \<open>__getattr__\<close> on the base class and raises. A cached
  \<open>None\<close> and a missing entry both give \<open>from_cache is None\<close>.\<close>

definition LazySettings_getattr :: "schema \<Rightarrow> unique_check \<Rightarrow> int \<Rightarrow> world \<Rightarrow> LazySettings \<Rightarrow> string
    \<Rightarrow> (error + resolved) \<times> LazySettings \<times> world" where
  "LazySettings_getattr sch uc now w self name =
     (if startswith name ''_'' then (Inl (NoAttribute ''LazySettings'' name), self, w)
      else case ExpiringDict_get now (l_cache self) name of
             (from_cache, c) \<Rightarrow>
               if from_cache = None \<or> from_cache = Some (Value VNone)
               then (case get_setting_value sch uc w (with_cache self c) name of
                       (Inl e, w') \<Rightarrow> (Inl e, with_cache self c, w')
                     | (Inr v, w') \<Rightarrow>
                         (Inr v, with_cache self (ExpiringDict_set now c name v), w'))
               else (Inr (the from_cache), with_cache self c, w))"

text \<open>\<open>LazySettings.__setattr__\<close>.\<close>

definition LazySettings_setattr :: "schema \<Rightarrow> unique_check \<Rightarrow> world \<Rightarrow> LazySettings \<Rightarrow> string \<Rightarrow> val
    \<Rightarrow> unit outcome \<times> world" where
  "LazySettings_setattr sch uc w self name v =
     (if startswith name ''_'' then (Super, w)
      else if map_of (django w) name \<noteq> None
      then (Return (), w\<lparr>django := AList.update name v (django w)\<rparr>)
      else if \<not> prefix_set self
      then (case custom sch uc w self of
              Inl e \<Rightarrow> (Raise e, w)
            | Inr (r, w1) \<Rightarrow>
                (case Settings_setattr r name v of
                   Raise e \<Rightarrow> (Raise e, w1)
                 | Super \<Rightarrow> (Super, w1)
                 | Return r' \<Rightarrow>
                     (case save sch uc w1 r' of
                        Inl e \<Rightarrow> (Raise e, w1)
                      | Inr (r'', w2) \<Rightarrow>
                          (Return (), w2\<lparr>cache := AList.delete CACHE_KEY (cache w2)\<rparr>))))
      else (case custom sch uc w self of
              Inl e \<Rightarrow> (Raise e, w)
            | Inr (r, w1) \<Rightarrow>
                (let prefix = the (l_prefix self) in
                 case (case py_in prefix (data r) of
                         Inl e \<Rightarrow> Inl e
                       | Inr True \<Rightarrow> Inr (data r)
                       | Inr False \<Rightarrow> py_setitem (data r) prefix (VDict [])) of
                   Inl e \<Rightarrow> (Raise e, w1)
                 | Inr d \<Rightarrow>
                     (case py_getitem d prefix of
                        Inl e \<Rightarrow> (Raise e, w1)
                      | Inr (VDict sub) \<Rightarrow>
                          (case py_setitem d prefix (VDict (AList.update name v sub)) of
                             Inl e \<Rightarrow> (Raise e, w1)
                           | Inr d' \<Rightarrow>
                               (case save sch uc w1 (r\<lparr>data := d'\<rparr>) of
                                  Inl e \<Rightarrow> (Raise e, w1)
                                | Inr (r'', w2) \<Rightarrow>
                                    (Return (), w2\<lparr>cache := AList.delete CACHE_KEY (cache w2)\<rparr>)))
                      | Inr x \<Rightarrow> (Raise (NoAttribute (type_name x) ''update''), w1)))))"

text \<open>\<open>LazySettings.__delattr__\<close>.\<close>

definition LazySettings_delattr :: "schema \<Rightarrow> unique_check \<Rightarrow> world \<Rightarrow> LazySettings \<Rightarrow> string
    \<Rightarrow> unit outcome \<times> world" where
  "LazySettings_delattr sch uc w self name =
     (if startswith name ''_'' then (Super, w)
      else if map_of (django w) name \<noteq> None
      then (Return (), w\<lparr>django := AList.delete name (django w)\<rparr>)
      else (case custom sch uc w self of
              Inl e \<Rightarrow> (Raise e, w)
            | Inr (r, w1) \<Rightarrow>
                (case Settings_delattr r name of
                   Raise e \<Rightarrow> (Raise e, w1)
                 | Super \<Rightarrow> (Super, w1)
                 | Return r' \<Rightarrow>
                     (case save sch uc w1 r' of
                        Inl e \<Rightarrow> (Raise e, w1)
                      | Inr (r'', w2) \<Rightarrow>
                          (Return (), w2\<lparr>cache := AList.delete CACHE_KEY (cache w2)\<rparr>)))))"

section \<open>Properties of the Settings Record\<close>

lemma update_error_dict_all_keys:
  "map fst (update_error_dict [(''__all__'', [m])] errors) \<noteq> [''id'']"
  by (cases errors) (auto split: option.splits simp: AList.update_keys
      dest!: arg_cong[where f="\<lambda>xs. ''__all__'' \<in> set xs"])

lemma update_error_dict_nonempty:
  "update_error_dict [(k, ms)] errors \<noteq> []"
  by (auto split: option.splits)

lemma validate_unique_violation_iff:
  "(validate_unique uc rows self ex = Inl (ValidationError ''Only one Settings instance could be created.''))
     = (other_records rows self \<noteq> [])"
  by (auto simp: validate_unique_def Let_def split: list.splits)

lemma clean_fields_raises:
  "clean_fields sch self = Inl e \<Longrightarrow> (\<forall>md. e \<noteq> ValidationErrorDict md) \<and> (\<forall>m. e \<noteq> ValidationError m)"
  by (auto simp: clean_fields_def split: if_splits sum.splits error.splits)

lemma save_fails_with_other_records:
  assumes "other_records (db w) self \<noteq> []"
  shows "\<exists>e. save sch uc w self = Inl e"
proof (cases "clean_fields sch self")
  case (Inl e)
  then show ?thesis using clean_fields_raises[OF Inl]
    by (cases e) (auto simp: save_def validate_settings_def full_clean_def)
next
  case (Inr p)
  obtain self' errors where p: "p = (self', errors)" by (cases p)
  have pkeq: "pk self' = pk self"
    using Inr p by (auto simp: clean_fields_def split: if_splits sum.splits error.splits)
  have "other_records (db w) self' \<noteq> []"
    using assms pkeq by (auto simp: other_records_def split: if_splits)
  then have vu: "validate_unique uc (db w) self' (map fst errors)
      = Inl (ValidationError ''Only one Settings instance could be created.'')"
    by (simp add: validate_unique_violation_iff)
  show ?thesis
    using Inr p vu update_error_dict_all_keys[of "''Only one Settings instance could be created.''" errors]
      update_error_dict_nonempty[of "''__all__''" "[''Only one Settings instance could be created.'']" errors]
    by (auto simp: save_def validate_settings_def full_clean_def simp del: update_error_dict.simps
        split: list.splits)
qed


lemma clean_fields_errors_shape:
  "clean_fields sch self = Inr (self', errors) \<Longrightarrow> map_of errors ''__all__'' = None \<and> pk self' = pk self"
  by (auto simp: clean_fields_def split: if_splits sum.splits error.splits)

lemma save_violation_message:
  assumes o: "other_records (db w) self \<noteq> []" and c: "clean_fields sch self = Inr (self', errors)"
  shows "save sch uc w self = Inl (ValidationErrorDict
           (errors @ [(''__all__'', [''Only one Settings instance could be created.''])]))"
proof -
  have s: "map_of errors ''__all__'' = None" "pk self' = pk self"
    using clean_fields_errors_shape[OF c] by simp_all
  have "other_records (db w) self' \<noteq> []"
    using o s(2) by (auto simp: other_records_def split: if_splits)
  then have vu: "validate_unique uc (db w) self' (map fst errors)
      = Inl (ValidationError ''Only one Settings instance could be created.'')"
    by (simp add: validate_unique_violation_iff)
  have k: "map fst (errors @ [(''__all__'', [''Only one Settings instance could be created.''])]) \<noteq> [''id'']"
    by (cases errors) auto
  show ?thesis
    using c vu s(1) k
    by (auto simp: save_def validate_settings_def full_clean_def split: list.splits)
qed

text \<open>
  Claim C3. \<open>validate_unique\<close> raises "Only one Settings instance could be created."
  exactly when the table holds another record: every row for an instance without a key,
  the rows with a different key for a stored instance (database keys are not 0). A
  \<open>save\<close> with another record in the table fails, with that message under \<open>__all__\<close>
  whenever cleaning the fields did not itself crash; with no other record the violation is
  not raised.
\<close>

theorem validate_unique_singleton:
  "((validate_unique uc rows self ex
       = Inl (ValidationError ''Only one Settings instance could be created.''))
      = (other_records rows self \<noteq> []))
   \<and> (pk self = None \<longrightarrow> other_records rows self = rows)
   \<and> (\<forall>k. pk self = Some k \<and> k \<noteq> 0 \<longrightarrow>
         other_records rows self = filter (\<lambda>r. pk r \<noteq> Some k) rows)
   \<and> (other_records (db w) self \<noteq> [] \<longrightarrow> (\<exists>e. save sch uc w self = Inl e))
   \<and> (other_records (db w) self \<noteq> [] \<and> clean_fields sch self = Inr (self', errors) \<longrightarrow>
         save sch uc w self = Inl (ValidationErrorDict
           (errors @ [(''__all__'', [''Only one Settings instance could be created.''])])))"
  using validate_unique_violation_iff[of uc rows self ex]
    save_fails_with_other_records[of w self sch uc]
    save_violation_message[of w self sch self' errors uc]
  by (auto simp: other_records_def)

theorem validate_unique_singleton_witness:
  "validate_unique (\<lambda>ex rows s. []) [\<lparr>pk = Some 1, data = VDict []\<rparr>] \<lparr>pk = None, data = VDict []\<rparr> []
       = Inl (ValidationError ''Only one Settings instance could be created.'')
   \<and> other_records [\<lparr>pk = Some 1, data = VDict []\<rparr>, \<lparr>pk = Some 2, data = VDict []\<rparr>]
         \<lparr>pk = Some 1, data = VDict [(''A'', VInt 1)]\<rparr> = [\<lparr>pk = Some 2, data = VDict []\<rparr>]
   \<and> validate_unique (\<lambda>ex rows s. []) [\<lparr>pk = Some 1, data = VDict []\<rparr>]
         \<lparr>pk = Some 1, data = VDict [(''A'', VInt 1)]\<rparr> [] = Inr ()
   \<and> save [] (\<lambda>ex rows s. []) \<lparr>django = [], cache = [], db = [\<lparr>pk = Some 1, data = VDict []\<rparr>]\<rparr>
         \<lparr>pk = None, data = VDict [(''A'', VInt 1)]\<rparr>
       = Inl (ValidationErrorDict [(''__all__'', [''Only one Settings instance could be created.''])])"
  using validate_unique_singleton[where uc="\<lambda>ex rows s. []" and rows="[\<lparr>pk = Some 1, data = VDict []\<rparr>]"
      and self="\<lparr>pk = None, data = VDict [(''A'', VInt 1)]\<rparr>" and ex="[]" and sch="[]"
      and w="\<lparr>django = [], cache = [], db = [\<lparr>pk = Some 1, data = VDict []\<rparr>]\<rparr>"
      and self'="\<lparr>pk = None, data = VDict [(''A'', VInt 1)]\<rparr>" and errors="[]"]
  by (simp add: other_records_def validate_unique_def clean_fields_def clean_def empty_values_def)

text \<open>
  Claim C9. When \<open>full_clean\<close> raises a validation error whose \<open>message_dict\<close> has the
  single key \<open>id\<close>, \<open>validate_settings\<close> returns normally and the save goes on to
  write the cleaned instance and clear the cache; a validation error with any other keys,
  or without a \<open>message_dict\<close>, reaches the caller of \<open>save\<close> unchanged.
\<close>

theorem validate_settings_swallows_id:
  "(full_clean sch uc (db w) inst = (inst', Some (ValidationErrorDict md))
      \<and> map fst md = [''id''] \<longrightarrow>
        validate_settings sch uc (db w) inst = Inr inst'
        \<and> save sch uc w inst
            = Inr (fst (save_base (db w) inst'),
                   clear_settings_cache (w\<lparr>db := snd (save_base (db w) inst')\<rparr>)))
   \<and> (full_clean sch uc (db w) inst = (inst', Some (ValidationErrorDict md))
      \<and> map fst md \<noteq> [''id''] \<longrightarrow>
        validate_settings sch uc (db w) inst = Inl (ValidationErrorDict md)
        \<and> save sch uc w inst = Inl (ValidationErrorDict md))
   \<and> (full_clean sch uc (db w) inst = (inst', Some (ValidationError m)) \<longrightarrow>
        validate_settings sch uc (db w) inst = Inl (ValidationError m)
        \<and> save sch uc w inst = Inl (ValidationError m))"
  by (auto simp: validate_settings_def save_def split: prod.splits)

theorem validate_settings_swallows_id_witness:
  "save [] (\<lambda>ex rows s. [(''id'', [''Settings with this Id already exists.''])])
      \<lparr>django = [], cache = [], db = [\<lparr>pk = Some 1, data = VDict []\<rparr>]\<rparr>
      \<lparr>pk = Some 1, data = VDict [(''A'', VInt 1)]\<rparr>
     = Inr (\<lparr>pk = Some 1, data = VDict [(''A'', VInt 1)]\<rparr>,
            \<lparr>django = [], cache = [], db = [\<lparr>pk = Some 1, data = VDict [(''A'', VInt 1)]\<rparr>]\<rparr>)
   \<and> save [] (\<lambda>ex rows s. [(''id'', [''exists'']), (''data'', [''bad''])])
      \<lparr>django = [], cache = [], db = [\<lparr>pk = Some 1, data = VDict []\<rparr>]\<rparr>
      \<lparr>pk = Some 1, data = VDict [(''A'', VInt 1)]\<rparr>
     = Inl (ValidationErrorDict [(''id'', [''exists'']), (''data'', [''bad''])])"
  using validate_settings_swallows_id[where sch="[]"
      and uc="\<lambda>ex rows s. [(''id'', [''Settings with this Id already exists.''])]"
      and w="\<lparr>django = [], cache = [], db = [\<lparr>pk = Some 1, data = VDict []\<rparr>]\<rparr>"
      and inst="\<lparr>pk = Some 1, data = VDict [(''A'', VInt 1)]\<rparr>"
      and inst'="\<lparr>pk = Some 1, data = VDict [(''A'', VInt 1)]\<rparr>"
      and md="[(''id'', [''Settings with this Id already exists.''])]"]
    validate_settings_swallows_id[where sch="[]"
      and uc="\<lambda>ex rows s. [(''id'', [''exists'']), (''data'', [''bad''])]"
      and w="\<lparr>django = [], cache = [], db = [\<lparr>pk = Some 1, data = VDict []\<rparr>]\<rparr>"
      and inst="\<lparr>pk = Some 1, data = VDict [(''A'', VInt 1)]\<rparr>"
      and inst'="\<lparr>pk = Some 1, data = VDict [(''A'', VInt 1)]\<rparr>"
      and md="[(''id'', [''exists'']), (''data'', [''bad''])]"]
  by (simp add: full_clean_def clean_fields_def clean_def empty_values_def validate_unique_def
      other_records_def save_base_def clear_settings_cache_def LazySettings_clear_def Let_def)

lemma clean_items_undeclared_kept:
  "clean_items sch items d = Inr d' \<Longrightarrow> map_of sch name = None \<Longrightarrow> map_of d' name = map_of d name"
proof (induction items arbitrary: d)
  case Nil
  then show ?case by simp
next
  case (Cons kv items)
  obtain k v where kv: "kv = (k, v)" by (cases kv)
  show ?case
  proof (cases "map_of sch k")
    case None
    then show ?thesis using Cons kv by simp
  next
    case (Some en)
    then have ne: "k \<noteq> name" using Cons.prems(2) by auto
    show ?thesis using Cons.prems Some kv ne Cons.IH
      by (cases en) (auto split: sum.splits simp: update_conv')
  qed
qed

lemma clean_items_all_undeclared:
  "\<forall>k\<in>fst ` set items. map_of sch k = None \<Longrightarrow> clean_items sch items d = Inr d"
  by (induction items arbitrary: d) auto

text \<open>
  Claim C10. \<open>Settings.__setattr__\<close> stores any name without a leading underscore
  that is not one of the six reserved model names, declared or not (on a record whose
  \<open>data\<close> is unset or a dictionary); \<open>SettingsField.clean\<close> leaves the value under
  every undeclared key as it is, and a record holding only undeclared keys passes field
  validation unchanged and without errors.
\<close>

theorem undeclared_names_stored_and_kept:
  "(\<not> startswith name ''_''
      \<and> name \<notin> {''create_date'', ''data'', ''id'', ''objects'', ''pk'', ''update_date''}
      \<and> (\<not> truthy (data self) \<or> isinstance_dict (data self)) \<longrightarrow>
        (\<exists>self'. Settings_setattr self name v = Return self'
           \<and> py_getitem (data self') name = Inr v
           \<and> data self' = VDict (AList.update name v
                (case data self of VDict d0 \<Rightarrow> d0 | _ \<Rightarrow> []))))
   \<and> (clean sch (VDict d) = Inr (VDict d') \<and> map_of sch name = None \<longrightarrow>
        map_of d' name = map_of d name)
   \<and> ((\<forall>k\<in>fst ` set d. map_of sch k = None) \<longrightarrow>
        clean sch (VDict d) = Inr (VDict d)
        \<and> clean_fields sch (self\<lparr>data := VDict d\<rparr>) = Inr (self\<lparr>data := VDict d\<rparr>, []))"
proof (intro conjI impI)
  assume a: "\<not> startswith name ''_''
      \<and> name \<notin> {''create_date'', ''data'', ''id'', ''objects'', ''pk'', ''update_date''}
      \<and> (\<not> truthy (data self) \<or> isinstance_dict (data self))"
  then have n: "is_setting_name name" by (simp add: is_setting_name_def possible_names_def)
  show "\<exists>self'. Settings_setattr self name v = Return self'
           \<and> py_getitem (data self') name = Inr v
           \<and> data self' = VDict (AList.update name v
                (case data self of VDict d0 \<Rightarrow> d0 | _ \<Rightarrow> []))"
    using a n by (cases "data self") (auto simp: Settings_setattr_def update_conv')
next
  assume "clean sch (VDict d) = Inr (VDict d') \<and> map_of sch name = None"
  then show "map_of d' name = map_of d name"
    by (cases d) (auto simp: clean_def split: sum.splits if_splits
        dest: clean_items_undeclared_kept)
next
  assume u: "\<forall>k\<in>fst ` set d. map_of sch k = None"
  show "clean sch (VDict d) = Inr (VDict d)"
    using clean_items_all_undeclared[OF u, of d] by (cases d) (auto simp: clean_def)
  then show "clean_fields sch (self\<lparr>data := VDict d\<rparr>) = Inr (self\<lparr>data := VDict d\<rparr>, [])"
    by (auto simp: clean_fields_def empty_values_def)
qed

theorem undeclared_names_stored_and_kept_witness:
  "Settings_setattr \<lparr>pk = Some 1, data = VStr []\<rparr> ''EXTRA'' (VInt 7)
     = Return \<lparr>pk = Some 1, data = VDict [(''EXTRA'', VInt 7)]\<rparr>
   \<and> clean [(''N'', Definition (Setting (VInt 0) Inr (\<lambda>v. Inr (VInt 5))))]
        (VDict [(''EXTRA'', VInt 7), (''N'', VStr ''5'')])
     = Inr (VDict [(''EXTRA'', VInt 7), (''N'', VInt 5)])
   \<and> clean_fields [(''N'', Definition (Setting (VInt 0) Inr (\<lambda>v. Inr (VInt 5))))]
        \<lparr>pk = Some 1, data = VDict [(''EXTRA'', VInt 7)]\<rparr>
     = Inr (\<lparr>pk = Some 1, data = VDict [(''EXTRA'', VInt 7)]\<rparr>, [])"
  using undeclared_names_stored_and_kept[where name="''EXTRA''"
      and self="\<lparr>pk = Some 1, data = VStr []\<rparr>" and v="VInt 7"
      and sch="[(''N'', Definition (Setting (VInt 0) Inr (\<lambda>v. Inr (VInt 5))))]"
      and d="[(''EXTRA'', VInt 7)]" and d'="[(''EXTRA'', VInt 7)]"]
  by (simp add: Settings_setattr_def is_setting_name_def possible_names_def clean_def
      clean_fields_def empty_values_def)

subsection \<open>revert\<close>

lemma revert_app_settled:
  "map_of c n = Some s \<Longrightarrow> map_of d n = Some (default s)
    \<Longrightarrow> map_of (revert_app c items d) n = Some (default s)"
proof (induction items arbitrary: d)
  case Nil
  then show ?case by simp
next
  case (Cons kv items)
  obtain k v where kv: "kv = (k, v)" by (cases kv)
  show ?case
  proof (cases "map_of c k")
    case None
    then show ?thesis using Cons kv by simp
  next
    case (Some s')
    have "map_of (AList.update k (default s') d) n = Some (default s)"
      using Cons.prems Some by (cases "k = n") (simp_all add: update_conv')
    then show ?thesis using Cons.IH[OF Cons.prems(1)] Some kv by simp
  qed
qed

lemma revert_app_rerun:
  "revert_app c items (revert_app c items d) = revert_app c items d"
proof (induction items arbitrary: d)
  case Nil
  then show ?case by simp
next
  case (Cons kv items)
  obtain k v where kv: "kv = (k, v)" by (cases kv)
  show ?case
  proof (cases "map_of c k")
    case None
    then show ?thesis using Cons kv by simp
  next
    case (Some s)
    let ?r = "revert_app c items (AList.update k (default s) d)"
    have "map_of ?r k = Some (default s)"
      by (rule revert_app_settled[OF Some]) (simp add: update_conv')
    then have "AList.update k (default s) ?r = ?r" by (rule update_triv)
    then show ?thesis using Some kv Cons.IH[of "AList.update k (default s) d"] by simp
  qed
qed

lemma revert_app_names:
  "map fst items = map fst items' \<Longrightarrow> revert_app c items d = revert_app c items' d"
proof (induction items arbitrary: items' d)
  case Nil
  then show ?case by simp
next
  case (Cons kv items)
  then obtain kv' rest where i: "items' = kv' # rest" by (cases items') auto
  obtain k v where kv: "kv = (k, v)" by (cases kv)
  obtain v' where kv': "kv' = (k, v')" using Cons.prems i kv by (cases kv') auto
  have "map fst items = map fst rest" using Cons.prems i by simp
  then show ?case using Cons.IH[of rest] i kv kv' by (simp split: option.splits)
qed

lemma update_present_keys:
  "k \<in> fst ` set d \<Longrightarrow> map fst (AList.update k x d) = map fst d"
  by (simp add: update_keys)

lemma revert_app_keys:
  "fst ` set items \<subseteq> fst ` set d \<Longrightarrow> map fst (revert_app c items d) = map fst d"
proof (induction items arbitrary: d)
  case Nil
  then show ?case by simp
next
  case (Cons kv items)
  obtain k v where kv: "kv = (k, v)" by (cases kv)
  have k: "k \<in> fst ` set d" using Cons.prems kv by auto
  show ?case
  proof (cases "map_of c k")
    case None
    then show ?thesis using Cons kv by simp
  next
    case (Some s)
    have m: "map fst (AList.update k (default s) d) = map fst d"
      by (rule update_present_keys[OF k])
    then have "fst ` set items \<subseteq> fst ` set (AList.update k (default s) d)"
      using Cons.prems by (metis (no_types, lifting) insert_subset list.set(2) image_insert set_map)
    then show ?thesis using Cons.IH[of "AList.update k (default s) d"] Some kv m by simp
  qed
qed

lemma revert_app_idem:
  "revert_app c (revert_app c sub sub) (revert_app c sub sub) = revert_app c sub sub"
proof -
  have "map fst (revert_app c sub sub) = map fst sub"
    by (rule revert_app_keys) simp
  then have "revert_app c (revert_app c sub sub) (revert_app c sub sub)
      = revert_app c sub (revert_app c sub sub)"
    by (rule revert_app_names)
  then show ?thesis by (simp add: revert_app_rerun)
qed


lemma revert_container_other:
  "revert_container c k d = (d', e) \<Longrightarrow> n \<noteq> k \<Longrightarrow> map_of d' n = map_of d n"
  by (auto simp: revert_container_def update_conv' split: option.splits val.splits)

lemma revert_container_error:
  "revert_container c k d = (d', Some e) \<Longrightarrow> d' = d"
  by (auto simp: revert_container_def split: option.splits val.splits)

lemma revert_container_settled:
  "map_of sch k = Some (Container c) \<Longrightarrow> settled sch k d \<Longrightarrow> revert_container c k d = (d, None)"
  by (auto simp: settled_def revert_container_def update_triv split: option.splits val.splits)

lemma revert_container_settles:
  "map_of sch k = Some (Container c) \<Longrightarrow> k \<noteq> [] \<Longrightarrow> revert_container c k d = (d', None)
    \<Longrightarrow> settled sch k d'"
  by (auto simp: settled_def revert_container_def update_conv' revert_app_idem
      split: option.splits val.splits)

lemma settled_cong:
  "map_of d' n = map_of d n \<Longrightarrow> settled sch n d' = settled sch n d"
  by (simp add: settled_def split: option.splits entry.splits)

lemma revert_top_settled:
  "settled sch n d \<Longrightarrow> revert_top sch items d = (d', e) \<Longrightarrow> settled sch n d'"
proof (induction items arbitrary: d)
  case Nil
  then show ?case by simp
next
  case (Cons kv items)
  obtain k v where kv: "kv = (k, v)" by (cases kv)
  show ?case
  proof (cases "map_of sch k")
    case None
    then show ?thesis using Cons kv by simp
  next
    case (Some en)
    show ?thesis
    proof (cases en)
      case (Definition s)
      have "map_of (AList.update k (default s) d) n = map_of d n"
        using Cons.prems(1) Some Definition by (cases "k = n") (auto simp: update_conv' settled_def)
      then have s1: "settled sch n (AList.update k (default s) d)"
        using Cons.prems(1) settled_cong[of "AList.update k (default s) d" n d sch] by simp
      have r: "revert_top sch items (AList.update k (default s) d) = (d', e)"
        using Cons.prems(2) Some Definition kv by simp
      show ?thesis by (rule Cons.IH[OF s1 r])
    next
      case (Container c)
      show ?thesis
      proof (cases "k = []")
        case True
        then show ?thesis using Cons.prems Some Container kv by simp
      next
        case False
        obtain d1 r where rc: "revert_container c k d = (d1, r)" by (cases "revert_container c k d")
        have s1: "settled sch n d1"
        proof (cases "k = n")
          case True
          then have "revert_container c k d = (d, None)"
            using revert_container_settled Some Container Cons.prems(1) by simp
          then show ?thesis using rc Cons.prems(1) by simp
        next
          case False
          then have "map_of d1 n = map_of d n" using revert_container_other[OF rc] by simp
          then show ?thesis using Cons.prems(1) settled_cong[of d1 n d sch] by simp
        qed
        show ?thesis
        proof (cases r)
          case None
          have r: "revert_top sch items d1 = (d', e)"
            using Cons.prems(2) Some Container kv False rc None by simp
          show ?thesis by (rule Cons.IH[OF s1 r])
        next
          case (Some e1)
          have "d' = d1"
            using Cons.prems(2) \<open>map_of sch k = Some en\<close> Container kv False rc Some by simp
          then show ?thesis using s1 by simp
        qed
      qed
    qed
  qed
qed

lemma revert_top_rerun:
  "revert_top sch items d = (d', e) \<Longrightarrow> revert_top sch items d' = (d', e)"
proof (induction items arbitrary: d)
  case Nil
  then show ?case by simp
next
  case (Cons kv items)
  obtain k v where kv: "kv = (k, v)" by (cases kv)
  show ?case
  proof (cases "map_of sch k")
    case None
    then show ?thesis using Cons kv by simp
  next
    case (Some en)
    show ?thesis
    proof (cases en)
      case (Definition s)
      let ?d1 = "AList.update k (default s) d"
      have r: "revert_top sch items ?d1 = (d', e)" using Cons.prems Some Definition kv by simp
      have "settled sch k ?d1" using Some Definition by (simp add: settled_def update_conv')
      then have "settled sch k d'" using revert_top_settled r by blast
      then have "AList.update k (default s) d' = d'"
        using Some Definition by (simp add: settled_def update_triv)
      then show ?thesis using Cons.IH[OF r] Some Definition kv by simp
    next
      case (Container c)
      show ?thesis
      proof (cases "k = []")
        case True
        then show ?thesis using Cons.prems Some Container kv by simp
      next
        case False
        obtain d1 r where rc: "revert_container c k d = (d1, r)" by (cases "revert_container c k d")
        show ?thesis
        proof (cases r)
          case None
          have r: "revert_top sch items d1 = (d', e)"
            using Cons.prems Some Container kv False rc None by simp
          have "settled sch k d1"
            using revert_container_settles[OF Some[unfolded Container] False] rc None by simp
          then have "settled sch k d'" using revert_top_settled r by blast
          then have "revert_container c k d' = (d', None)"
            using revert_container_settled Some Container by simp
          then show ?thesis using Cons.IH[OF r] Some Container kv False by simp
        next
          case (Some e1)
          then have "d1 = d" using revert_container_error rc by blast
          then show ?thesis
            using Cons.prems \<open>map_of sch k = Some en\<close> Container kv False rc Some by auto
        qed
      qed
    qed
  qed
qed

lemma revert_top_names:
  "map fst items = map fst items' \<Longrightarrow> revert_top sch items d = revert_top sch items' d"
proof (induction items arbitrary: items' d)
  case Nil
  then show ?case by simp
next
  case (Cons kv items)
  then obtain kv' rest where i: "items' = kv' # rest" by (cases items') auto
  obtain k v where kv: "kv = (k, v)" by (cases kv)
  obtain v' where kv': "kv' = (k, v')" using Cons.prems i kv by (cases kv') auto
  have "map fst items = map fst rest" using Cons.prems i by simp
  then show ?case using Cons.IH[of rest] i kv kv'
    by (simp split: option.splits entry.splits prod.splits)
qed

lemma revert_container_keys:
  assumes "revert_container c k d = (d', e)"
  shows "map fst d' = map fst d"
proof (cases "map_of d k")
  case None
  then show ?thesis using assms by (simp add: revert_container_def)
next
  case (Some v)
  then have "(k, v) \<in> set d" by (rule map_of_SomeD)
  then have "k \<in> fst ` set d" by force
  then have "map fst (AList.update k x d) = map fst d" for x by (rule update_present_keys)
  then show ?thesis using Some assms by (cases v) (auto simp: revert_container_def)
qed

lemma revert_top_keys:
  "fst ` set items \<subseteq> fst ` set d \<Longrightarrow> revert_top sch items d = (d', e) \<Longrightarrow> map fst d' = map fst d"
proof (induction items arbitrary: d)
  case Nil
  then show ?case by simp
next
  case (Cons kv items)
  obtain k v where kv: "kv = (k, v)" by (cases kv)
  have k: "k \<in> fst ` set d" and sub: "fst ` set items \<subseteq> set (map fst d)"
    using Cons.prems(1) kv by auto
  show ?case
  proof (cases "map_of sch k")
    case None
    then show ?thesis using Cons kv by simp
  next
    case (Some en)
    show ?thesis
    proof (cases en)
      case (Definition s)
      have m: "map fst (AList.update k (default s) d) = map fst d"
        by (rule update_present_keys[OF k])
      have s: "fst ` set items \<subseteq> fst ` set (AList.update k (default s) d)"
        using sub m by (metis set_map)
      have r: "revert_top sch items (AList.update k (default s) d) = (d', e)"
        using Cons.prems(2) Some Definition kv by simp
      show ?thesis using Cons.IH[OF s r] m by simp
    next
      case (Container c)
      show ?thesis
      proof (cases "k = []")
        case True
        then show ?thesis using Cons.prems Some Container kv by simp
      next
        case False
        obtain d1 r where rc: "revert_container c k d = (d1, r)" by (cases "revert_container c k d")
        have m: "map fst d1 = map fst d" by (rule revert_container_keys[OF rc])
        have s: "fst ` set items \<subseteq> fst ` set d1" using sub m by (metis set_map)
        show ?thesis
        proof (cases r)
          case None
          have r: "revert_top sch items d1 = (d', e)"
            using Cons.prems(2) Some Container kv False rc None by simp
          show ?thesis using Cons.IH[OF s r] m by simp
        next
          case (Some e1)
          have "d' = d1"
            using Cons.prems(2) \<open>map_of sch k = Some en\<close> Container kv False rc Some by simp
          then show ?thesis using m by simp
        qed
      qed
    qed
  qed
qed

lemma revert_top_idem:
  assumes "revert_top sch d d = (d', e)"
  shows "revert_top sch d' d' = (d', e)"
proof -
  have "map fst d' = map fst d" by (rule revert_top_keys[OF _ assms]) simp
  then have "revert_top sch d' d' = revert_top sch d d'" by (rule revert_top_names)
  then show ?thesis using revert_top_rerun[OF assms] by simp
qed

lemma revert_container_idem:
  "revert_container c k d = (d', e) \<Longrightarrow> revert_container c k d' = (d', e)"
  by (auto simp: revert_container_def update_conv' revert_app_idem
      split: option.splits val.splits)

lemma revert_twice:
  "revert sch (fst (revert sch self app)) app = revert sch self app"
proof (cases "app \<noteq> None \<and> app \<noteq> Some []")
  case True
  then obtain a where a: "app = Some a" "a \<noteq> []" by auto
  show ?thesis
  proof (cases "data self")
    case (VDict d)
    show ?thesis
    proof (cases "map_of sch a")
      case None
      then show ?thesis using a VDict by (simp add: revert_def)
    next
      case (Some en)
      show ?thesis
      proof (cases en)
        case (Definition s)
        show ?thesis
        proof (cases "map_of d a")
          case None
          then show ?thesis using a VDict Some Definition by (simp add: revert_def)
        next
          case (Some v)
          then show ?thesis using a VDict \<open>map_of sch a = Some en\<close> Definition
            by (cases v) (simp_all add: revert_def)
        qed
      next
        case (Container c)
        obtain d1 r where rc: "revert_container c a d = (d1, r)" by (cases "revert_container c a d")
        have "data (self\<lparr>data := VDict d1\<rparr>) = VDict d1" by simp
        then show ?thesis using a VDict Some Container rc revert_container_idem[OF rc]
          by (simp add: revert_def)
      qed
    qed
  qed (use a in \<open>simp_all add: revert_def\<close>)
next
  case False
  show ?thesis
  proof (cases "data self")
    case (VDict d)
    obtain d1 r where rt: "revert_top sch d d = (d1, r)" by (cases "revert_top sch d d")
    have "revert sch self app = (self\<lparr>data := VDict d1\<rparr>, r)"
      using False VDict rt by (cases app) (auto simp: revert_def)
    moreover have "revert sch (self\<lparr>data := VDict d1\<rparr>) app = (self\<lparr>data := VDict d1\<rparr>, r)"
      using False revert_top_idem[OF rt] by (cases app) (auto simp: revert_def)
    ultimately show ?thesis by simp
  next
    case VNone
    then show ?thesis using False by (cases app) (auto simp: revert_def)
  next
    case (VBool b)
    then show ?thesis using False by (cases app) (auto simp: revert_def)
  next
    case (VInt i)
    then show ?thesis using False by (cases app) (auto simp: revert_def)
  next
    case (VStr x)
    then show ?thesis using False by (cases app) (auto simp: revert_def)
  next
    case (VList x)
    then show ?thesis using False by (cases app) (auto simp: revert_def)
  qed
qed


lemma update_middle:
  "k \<notin> fst ` set pre \<Longrightarrow> AList.update k x (pre @ (k, v) # rest) = pre @ (k, x) # rest"
  by (induction pre) auto

lemma map_of_middle:
  "k \<notin> fst ` set pre \<Longrightarrow> map_of (pre @ (k, v) # rest) k = Some v"
  by (induction pre) auto

lemma revert_app_reverted_gen:
  "distinct (map fst (pre @ items)) \<Longrightarrow> revert_app c items (pre @ items) = pre @ reverted_app c items"
proof (induction items arbitrary: pre)
  case Nil
  then show ?case by (simp add: reverted_app_def)
next
  case (Cons kv items)
  obtain k v where kv: "kv = (k, v)" by (cases kv)
  have k: "k \<notin> fst ` set pre" using Cons.prems kv by auto
  show ?case
  proof (cases "map_of c k")
    case None
    have "distinct (map fst ((pre @ [(k, v)]) @ items))" using Cons.prems kv by simp
    then have "revert_app c items ((pre @ [(k, v)]) @ items) = (pre @ [(k, v)]) @ reverted_app c items"
      by (rule Cons.IH)
    then show ?thesis using None kv by (simp add: reverted_app_def)
  next
    case (Some s)
    have "distinct (map fst ((pre @ [(k, default s)]) @ items))" using Cons.prems kv by simp
    then have "revert_app c items ((pre @ [(k, default s)]) @ items)
        = (pre @ [(k, default s)]) @ reverted_app c items"
      by (rule Cons.IH)
    then show ?thesis using Some kv update_middle[OF k, of "default s" v items]
      by (simp add: reverted_app_def)
  qed
qed

lemma revert_app_reverted:
  "distinct (map fst sub) \<Longrightarrow> revert_app c sub sub = reverted_app c sub"
  using revert_app_reverted_gen[of "[]" sub c] by simp

lemma revert_top_reverted_gen:
  "distinct (map fst (pre @ items)) \<Longrightarrow> revertible_items sch items
    \<Longrightarrow> revert_top sch items (pre @ items) = (pre @ reverted sch items, None)"
proof (induction items arbitrary: pre)
  case Nil
  then show ?case by (simp add: reverted_def)
next
  case (Cons kv items)
  obtain k v where kv: "kv = (k, v)" by (cases kv)
  have k: "k \<notin> fst ` set pre" using Cons.prems(1) kv by auto
  have ri: "revertible_items sch items" using Cons.prems(2) by (simp add: revertible_items_def)
  have step: "revert_top sch items ((pre @ [(k, x)]) @ items) = ((pre @ [(k, x)]) @ reverted sch items, None)"
    for x
  proof -
    have "distinct (map fst ((pre @ [(k, x)]) @ items))" using Cons.prems(1) kv by simp
    then show ?thesis using ri by (rule Cons.IH)
  qed
  show ?case
  proof (cases "map_of sch k")
    case None
    then show ?thesis using step[of v] kv by (simp add: reverted_def)
  next
    case (Some en)
    show ?thesis
    proof (cases en)
      case (Definition s)
      then show ?thesis
        using step[of "default s"] Some kv update_middle[OF k, of "default s" v items]
        by (simp add: reverted_def)
    next
      case (Container c)
      have "k \<noteq> [] \<and> (case v of VDict sub \<Rightarrow> distinct (map fst sub) | _ \<Rightarrow> False)"
        using Cons.prems(2) kv Some Container by (simp add: revertible_items_def)
      then obtain sub where v: "v = VDict sub" and ds: "distinct (map fst sub)" and ne: "k \<noteq> []"
        by (cases v) auto
      have rc: "revert_container c k (pre @ (k, v) # items)
          = (pre @ (k, VDict (reverted_app c sub)) # items, None)"
        using map_of_middle[OF k, of v items] v revert_app_reverted[OF ds]
          update_middle[OF k, of "VDict (reverted_app c sub)" v items]
        by (simp add: revert_container_def)
      show ?thesis
        using step[of "VDict (reverted_app c sub)"] Some Container kv rc ne v
        by (simp add: reverted_def)
    qed
  qed
qed

lemma revert_top_reverted:
  "revertible sch d \<Longrightarrow> revert_top sch d d = (reverted sch d, None)"
  using revert_top_reverted_gen[of "[]" d sch]
  by (simp add: revertible_def)


text \<open>
  Claim C7. Calling \<open>revert\<close> twice with the same argument gives the same record, and
  the same exception if any, as calling it once. On data with distinct keys whose
  container entries are dictionaries, the top-level \<open>revert\<close> is the key-by-key map of
  the specification: the default for a key with a Setting Definition, the sub-mapping
  reverted one level down for a container, the stored value for a key without a
  definition; \<open>revert(app)\<close> does the same to one container's sub-mapping.
\<close>

theorem revert_idempotent:
  "revert sch (fst (revert sch self app)) app = revert sch self app
   \<and> (data self = VDict d \<and> revertible sch d \<longrightarrow>
         revert sch self None = (self\<lparr>data := VDict (reverted sch d)\<rparr>, None))
   \<and> (data self = VDict d \<and> a \<noteq> [] \<and> map_of sch a = Some (Container c)
        \<and> map_of d a = Some (VDict sub) \<and> distinct (map fst sub) \<longrightarrow>
         revert sch self (Some a)
           = (self\<lparr>data := VDict (AList.update a (VDict (reverted_app c sub)) d)\<rparr>, None))"
proof (intro conjI impI)
  show "revert sch (fst (revert sch self app)) app = revert sch self app"
    by (rule revert_twice)
next
  assume "data self = VDict d \<and> revertible sch d"
  then show "revert sch self None = (self\<lparr>data := VDict (reverted sch d)\<rparr>, None)"
    using revert_top_reverted[of sch d] by (simp add: revert_def)
next
  assume "data self = VDict d \<and> a \<noteq> [] \<and> map_of sch a = Some (Container c)
        \<and> map_of d a = Some (VDict sub) \<and> distinct (map fst sub)"
  then show "revert sch self (Some a)
           = (self\<lparr>data := VDict (AList.update a (VDict (reverted_app c sub)) d)\<rparr>, None)"
    using revert_app_reverted[of sub c] by (simp add: revert_def revert_container_def)
qed

theorem revert_idempotent_witness:
  "revert [(''SITE_TITLE'', Definition (Setting (VStr ''My Site'') Inr Inr)),
           (''blog'', Container [(''POSTS_PER_PAGE'', Setting (VInt 10) Inr Inr)])]
      \<lparr>pk = Some 1, data = VDict [(''blog'', VDict [(''POSTS_PER_PAGE'', VInt 20)]),
                                  (''SITE_TITLE'', VStr ''Mine''), (''OLD'', VInt 1)]\<rparr> None
     = (\<lparr>pk = Some 1, data = VDict [(''blog'', VDict [(''POSTS_PER_PAGE'', VInt 10)]),
                                   (''SITE_TITLE'', VStr ''My Site''), (''OLD'', VInt 1)]\<rparr>, None)
   \<and> revert [(''SITE_TITLE'', Definition (Setting (VStr ''My Site'') Inr Inr)),
           (''blog'', Container [(''POSTS_PER_PAGE'', Setting (VInt 10) Inr Inr)])]
      \<lparr>pk = Some 1, data = VDict [(''blog'', VDict [(''POSTS_PER_PAGE'', VInt 10)]),
                                  (''SITE_TITLE'', VStr ''My Site''), (''OLD'', VInt 1)]\<rparr> None
     = (\<lparr>pk = Some 1, data = VDict [(''blog'', VDict [(''POSTS_PER_PAGE'', VInt 10)]),
                                   (''SITE_TITLE'', VStr ''My Site''), (''OLD'', VInt 1)]\<rparr>, None)
   \<and> revert [(''SITE_TITLE'', Definition (Setting (VStr ''My Site'') Inr Inr)),
           (''blog'', Container [(''POSTS_PER_PAGE'', Setting (VInt 10) Inr Inr)])]
      \<lparr>pk = Some 1, data = VDict [(''blog'', VDict [(''POSTS_PER_PAGE'', VInt 20)]),
                                  (''SITE_TITLE'', VStr ''Mine''), (''OLD'', VInt 1)]\<rparr> (Some ''blog'')
     = (\<lparr>pk = Some 1, data = VDict [(''blog'', VDict [(''POSTS_PER_PAGE'', VInt 10)]),
                                   (''SITE_TITLE'', VStr ''Mine''), (''OLD'', VInt 1)]\<rparr>, None)"
  using revert_idempotent[where
      sch="[(''SITE_TITLE'', Definition (Setting (VStr ''My Site'') Inr Inr)),
            (''blog'', Container [(''POSTS_PER_PAGE'', Setting (VInt 10) Inr Inr)])]"
      and self="\<lparr>pk = Some 1, data = VDict [(''blog'', VDict [(''POSTS_PER_PAGE'', VInt 20)]),
                                  (''SITE_TITLE'', VStr ''Mine''), (''OLD'', VInt 1)]\<rparr>"
      and app=None
      and d="[(''blog'', VDict [(''POSTS_PER_PAGE'', VInt 20)]),
              (''SITE_TITLE'', VStr ''Mine''), (''OLD'', VInt 1)]"
      and a="''blog''" and c="[(''POSTS_PER_PAGE'', Setting (VInt 10) Inr Inr)]"
      and sub="[(''POSTS_PER_PAGE'', VInt 20)]"]
  by (simp add: revertible_def revertible_items_def reverted_def reverted_app_def revert_def
      revert_container_def)

section \<open>Properties of the Lazy Settings Proxy\<close>

text \<open>The definitions a concrete world is evaluated with.\<close>

lemmas world_eval_defs =
  LazySettings_getattr_def ExpiringDict_get_def ExpiringDict_set_def with_cache_def
  get_setting_value_def lookup_setting_def in_app_data_def in_project_data_def prefix_set_def
  get_custom_settings_def objects_get_def objects_create_def settings_to_python_def
  save_def validate_settings_def full_clean_def clean_fields_def clean_def empty_values_def
  validate_unique_def other_records_def save_base_def next_pk_def clear_settings_cache_def
  LazySettings_clear_def CACHE_KEY_def managers_CACHE_KEY_def max_age_def max_len_def
  LazySettings_setattr_def LazySettings_delattr_def Settings_setattr_def Settings_delattr_def
  is_setting_name_def possible_names_def LazySettings_init_def as_schema_def clean_app_def
  app_to_python_def Let_def

subsection \<open>The micro-cache\<close>

lemma with_cache_same: "with_cache self (l_cache self) = self"
  by (cases self) (simp add: with_cache_def)

lemma l_cache_with_cache: "l_cache (with_cache self c) = c"
  by (simp add: with_cache_def)

lemma ExpiringDict_set_get:
  "map_of (ExpiringDict_set now c key v) key = Some (v, now)"
  by (simp add: ExpiringDict_set_def Let_def update_conv')

lemma getattr_stores:
  assumes "\<not> startswith name ''_''"
    and "LazySettings_getattr sch uc now w self name = (Inr v, self', w')"
  shows "\<exists>t. map_of (l_cache self') name = Some (v, t) \<and> now - t < max_age"
proof (cases "map_of (l_cache self) name")
  case None
  then show ?thesis using assms
    by (auto simp: LazySettings_getattr_def ExpiringDict_get_def l_cache_with_cache
        ExpiringDict_set_get max_age_def split: prod.splits sum.splits)
next
  case (Some p)
  obtain x t where p: "p = (x, t)" by (cases p)
  show ?thesis
  proof (cases "now - t < max_age")
    case True
    then show ?thesis using assms Some p
      by (auto simp: LazySettings_getattr_def ExpiringDict_get_def l_cache_with_cache
          ExpiringDict_set_get max_age_def split: prod.splits sum.splits if_splits)
  next
    case False
    then show ?thesis using assms Some p
      by (auto simp: LazySettings_getattr_def ExpiringDict_get_def l_cache_with_cache
          ExpiringDict_set_get max_age_def split: prod.splits sum.splits if_splits)
  qed
qed

lemma getattr_from_cache:
  assumes "\<not> startswith name ''_''"
    and "map_of (l_cache self) name = Some (v, t)" and "now - t < max_age"
    and "v \<noteq> Value VNone"
  shows "LazySettings_getattr sch uc now w self name = (Inr v, self, w)"
  using assms by (simp add: LazySettings_getattr_def ExpiringDict_get_def with_cache_same)

text \<open>
  Claim C8, as amended. A read of a name without a leading underscore that returns a
  value leaves that value in the micro-cache, fresh; a later read of the name, while the
  entry is there and younger than \<open>max_age\<close>, returns the cached value without looking
  at the world, for every cached value but \<open>None\<close>. A cached \<open>None\<close> is taken for a
  miss: the name is resolved again.
\<close>

theorem micro_cache_hit:
  "(\<not> startswith name ''_''
      \<and> LazySettings_getattr sch uc now w self name = (Inr v, self', w') \<longrightarrow>
        (\<exists>t. map_of (l_cache self') name = Some (v, t) \<and> now - t < max_age))
   \<and> (\<not> startswith name ''_''
      \<and> map_of (l_cache self) name = Some (v, t) \<and> now - t < max_age \<and> v \<noteq> Value VNone \<longrightarrow>
        LazySettings_getattr sch uc now w self name = (Inr v, self, w))
   \<and> (\<not> startswith name ''_''
      \<and> map_of (l_cache self) name = Some (Value VNone, t) \<and> now - t < max_age \<longrightarrow>
        fst (LazySettings_getattr sch uc now w self name)
          = fst (get_setting_value sch uc w self name))"
proof (intro conjI impI)
  assume "\<not> startswith name ''_''
      \<and> LazySettings_getattr sch uc now w self name = (Inr v, self', w')"
  then show "\<exists>t. map_of (l_cache self') name = Some (v, t) \<and> now - t < max_age"
    using getattr_stores by blast
next
  assume "\<not> startswith name ''_''
      \<and> map_of (l_cache self) name = Some (v, t) \<and> now - t < max_age \<and> v \<noteq> Value VNone"
  then show "LazySettings_getattr sch uc now w self name = (Inr v, self, w)"
    using getattr_from_cache by blast
next
  assume "\<not> startswith name ''_''
      \<and> map_of (l_cache self) name = Some (Value VNone, t) \<and> now - t < max_age"
  then show "fst (LazySettings_getattr sch uc now w self name)
          = fst (get_setting_value sch uc w self name)"
    by (auto simp: LazySettings_getattr_def ExpiringDict_get_def with_cache_same
        split: prod.splits sum.splits)
qed


theorem micro_cache_hit_witness:
  "LazySettings_getattr [] (\<lambda>ex rows s. []) 0
      \<lparr>django = [], cache = [], db = [\<lparr>pk = Some 1, data = VDict [(''X'', VInt 7)]\<rparr>]\<rparr>
      (LazySettings [] None None []) ''X''
     = (Inr (Value (VInt 7)), LazySettings [] None None [(''X'', (Value (VInt 7), 0))],
        \<lparr>django = [], cache = [(''setman__custom_cache'', \<lparr>pk = Some 1, data = VDict [(''X'', VInt 7)]\<rparr>)],
         db = [\<lparr>pk = Some 1, data = VDict [(''X'', VInt 7)]\<rparr>]\<rparr>)
   \<and> LazySettings_getattr [] (\<lambda>ex rows s. []) 9
      \<lparr>django = [], cache = [], db = [\<lparr>pk = Some 1, data = VDict [(''X'', VInt 8)]\<rparr>]\<rparr>
      (LazySettings [] None None [(''X'', (Value (VInt 7), 0))]) ''X''
     = (Inr (Value (VInt 7)), LazySettings [] None None [(''X'', (Value (VInt 7), 0))],
        \<lparr>django = [], cache = [], db = [\<lparr>pk = Some 1, data = VDict [(''X'', VInt 8)]\<rparr>]\<rparr>)"
  using micro_cache_hit[where name="''X''" and sch="[]" and uc="\<lambda>ex rows s. []" and now=9
      and w="\<lparr>django = [], cache = [], db = [\<lparr>pk = Some 1, data = VDict [(''X'', VInt 8)]\<rparr>]\<rparr>"
      and self="LazySettings [] None None [(''X'', (Value (VInt 7), 0))]"
      and v="Value (VInt 7)" and t=0
      and self'="LazySettings [] None None [(''X'', (Value (VInt 7), 0))]"
      and w'="\<lparr>django = [], cache = [], db = [\<lparr>pk = Some 1, data = VDict [(''X'', VInt 8)]\<rparr>]\<rparr>"]
  by (simp add: world_eval_defs)

text \<open>
  The claim as stated fails for a resolved \<open>None\<close>: the first read caches \<open>None\<close> at
  time 0; at time 1, with the entry present and not expired, a read in a world whose
  record now holds 5 returns 5, not the cached \<open>None\<close>.
\<close>

theorem cached_none_resolved_again:
  "LazySettings_getattr [] (\<lambda>ex rows s. []) 0
      \<lparr>django = [], cache = [], db = [\<lparr>pk = Some 1, data = VDict [(''X'', VNone)]\<rparr>]\<rparr>
      (LazySettings [] None None []) ''X''
     = (Inr (Value VNone), LazySettings [] None None [(''X'', (Value VNone, 0))],
        \<lparr>django = [], cache = [(''setman__custom_cache'', \<lparr>pk = Some 1, data = VDict [(''X'', VNone)]\<rparr>)],
         db = [\<lparr>pk = Some 1, data = VDict [(''X'', VNone)]\<rparr>]\<rparr>)
   \<and> map_of (l_cache (LazySettings [] None None [(''X'', (Value VNone, 0))])) ''X''
       = Some (Value VNone, 0)
   \<and> (1::int) - 0 < max_age
   \<and> fst (LazySettings_getattr [] (\<lambda>ex rows s. []) 1
      \<lparr>django = [], cache = [], db = [\<lparr>pk = Some 1, data = VDict [(''X'', VInt 5)]\<rparr>]\<rparr>
      (LazySettings [] None None [(''X'', (Value VNone, 0))]) ''X'')
     = Inr (Value (VInt 5))"
  by (simp add: world_eval_defs)

subsection \<open>Deleting through a scoped proxy\<close>

text \<open>
  Claim C5. The code does not do what the claim says. \<open>LazySettings.__delattr__\<close> never
  looks at its prefix and hands the name to \<open>Settings.__delattr__\<close>, which deletes from
  the top level of \<open>data\<close>. Deleting \<open>POSTS_PER_PAGE\<close> through the proxy scoped to
  \<open>blog\<close> removes the project-level key of that name and leaves the container's
  sub-mapping as it was; with no such project-level key it changes nothing.
\<close>

theorem scoped_delete_removes_top_level_key:
  "LazySettings_delattr
      [(''blog'', Container [(''POSTS_PER_PAGE'', Setting (VInt 10) Inr Inr)])]
      (\<lambda>ex rows s. [])
      \<lparr>django = [], cache = [],
       db = [\<lparr>pk = Some 1, data = VDict [(''blog'', VDict [(''POSTS_PER_PAGE'', VInt 20)]),
                                          (''POSTS_PER_PAGE'', VInt 5)]\<rparr>]\<rparr>
      (LazySettings (as_schema [(''POSTS_PER_PAGE'', Setting (VInt 10) Inr Inr)]) (Some ''blog'')
         (Some (LazySettings [(''blog'', Container [(''POSTS_PER_PAGE'', Setting (VInt 10) Inr Inr)])]
                  None None [])) [])
      ''POSTS_PER_PAGE''
     = (Return (),
        \<lparr>django = [], cache = [],
         db = [\<lparr>pk = Some 1, data = VDict [(''blog'', VDict [(''POSTS_PER_PAGE'', VInt 20)])]\<rparr>]\<rparr>)
   \<and> LazySettings_delattr
      [(''blog'', Container [(''POSTS_PER_PAGE'', Setting (VInt 10) Inr Inr)])]
      (\<lambda>ex rows s. [])
      \<lparr>django = [], cache = [],
       db = [\<lparr>pk = Some 1, data = VDict [(''blog'', VDict [(''POSTS_PER_PAGE'', VInt 20)])]\<rparr>]\<rparr>
      (LazySettings (as_schema [(''POSTS_PER_PAGE'', Setting (VInt 10) Inr Inr)]) (Some ''blog'')
         (Some (LazySettings [(''blog'', Container [(''POSTS_PER_PAGE'', Setting (VInt 10) Inr Inr)])]
                  None None [])) [])
      ''POSTS_PER_PAGE''
     = (Return (),
        \<lparr>django = [], cache = [],
         db = [\<lparr>pk = Some 1, data = VDict [(''blog'', VDict [(''POSTS_PER_PAGE'', VInt 20)])]\<rparr>]\<rparr>)"
  by (simp add: world_eval_defs)

subsection \<open>Names in no layer\<close>

lemma custom_unfold:
  "custom sch uc w self =
     (case map_of (cache w) CACHE_KEY of
        Some from_cache \<Rightarrow> Inr (from_cache, w)
      | None \<Rightarrow>
          (case get_custom_settings sch uc w of
             Inl e \<Rightarrow> Inl e
           | Inr (r, w') \<Rightarrow> Inr (r, w'\<lparr>cache := AList.update CACHE_KEY r (cache w')\<rparr>)))"
  by (induction sch uc w self rule: custom.induct) simp_all

lemma save_django: "save sch uc w x = Inr (x', w') \<Longrightarrow> django w' = django w"
  by (auto simp: save_def clear_settings_cache_def LazySettings_clear_def Let_def
      split: sum.splits prod.splits if_splits)

lemma get_custom_settings_django:
  "get_custom_settings sch uc w = Inr (r, w') \<Longrightarrow> django w' = django w"
  by (auto simp: get_custom_settings_def objects_create_def
      split: sum.splits error.splits dest: save_django)

lemma custom_django: "custom sch uc w self = Inr (r, w') \<Longrightarrow> django w' = django w"
  by (auto simp: custom_unfold split: option.splits sum.splits prod.splits
      dest: get_custom_settings_django)

lemma lookup_setting_unknown:
  assumes "map_of d name = None"
    and "\<not> prefix_set self \<or> map_of d (the (l_prefix self)) = None
         \<or> (\<exists>sub. map_of d (the (l_prefix self)) = Some (VDict sub) \<and> map_of sub name = None)"
    and "map_of dj name = None" and "map_of (l_settings self) name = None"
  shows "lookup_setting (VDict d) dj self name = Inl (UnknownSetting name)"
  using assms by (auto simp: lookup_setting_def in_app_data_def in_project_data_def)

text \<open>
  Claim C4, as amended. Reading a name without a leading underscore that is in no
  layer (no micro-cache entry, not in the record's data nor in the proxy's sub-mapping,
  not in the host configuration, not in the proxy's schema) fails with the unknown-setting
  error naming that name. Writing such a name on the root proxy stores it in the record's
  data, deleting it leaves the data as it is; both then save the record and fail only if
  the save does.
\<close>

theorem unknown_name_read_fails:
  "(\<not> startswith name ''_'' \<and> map_of (l_cache self) name = None
      \<and> custom sch uc w self = Inr (r, w') \<and> data r = VDict d \<and> map_of d name = None
      \<and> (\<not> prefix_set self \<or> map_of d (the (l_prefix self)) = None
          \<or> (\<exists>sub. map_of d (the (l_prefix self)) = Some (VDict sub) \<and> map_of sub name = None))
      \<and> map_of (django w) name = None \<and> map_of (l_settings self) name = None \<longrightarrow>
        LazySettings_getattr sch uc now w self name = (Inl (UnknownSetting name), self, w'))
   \<and> (\<not> startswith name ''_''
      \<and> name \<notin> {''create_date'', ''data'', ''id'', ''objects'', ''pk'', ''update_date''}
      \<and> map_of (django w) name = None \<and> \<not> prefix_set self
      \<and> custom sch uc w self = Inr (r, w') \<and> data r = VDict d \<longrightarrow>
        LazySettings_setattr sch uc w self name v =
          (case save sch uc w' (r\<lparr>data := VDict (AList.update name v d)\<rparr>) of
             Inl e \<Rightarrow> (Raise e, w')
           | Inr (r', w2) \<Rightarrow> (Return (), w2\<lparr>cache := AList.delete CACHE_KEY (cache w2)\<rparr>)))
   \<and> (\<not> startswith name ''_''
      \<and> name \<notin> {''create_date'', ''data'', ''id'', ''objects'', ''pk'', ''update_date''}
      \<and> map_of (django w) name = None
      \<and> custom sch uc w self = Inr (r, w') \<and> data r = VDict d \<and> map_of d name = None \<longrightarrow>
        LazySettings_delattr sch uc w self name =
          (case save sch uc w' r of
             Inl e \<Rightarrow> (Raise e, w')
           | Inr (r', w2) \<Rightarrow> (Return (), w2\<lparr>cache := AList.delete CACHE_KEY (cache w2)\<rparr>)))"
proof (intro conjI impI)
  assume a: "\<not> startswith name ''_'' \<and> map_of (l_cache self) name = None
      \<and> custom sch uc w self = Inr (r, w') \<and> data r = VDict d \<and> map_of d name = None
      \<and> (\<not> prefix_set self \<or> map_of d (the (l_prefix self)) = None
          \<or> (\<exists>sub. map_of d (the (l_prefix self)) = Some (VDict sub) \<and> map_of sub name = None))
      \<and> map_of (django w) name = None \<and> map_of (l_settings self) name = None"
  then have dj: "django w' = django w" using custom_django by blast
  have "lookup_setting (VDict d) (django w') self name = Inl (UnknownSetting name)"
    using a dj by (intro lookup_setting_unknown) simp_all
  then have "get_setting_value sch uc w self name = (Inl (UnknownSetting name), w')"
    using a by (simp add: get_setting_value_def)
  then show "LazySettings_getattr sch uc now w self name = (Inl (UnknownSetting name), self, w')"
    using a by (simp add: LazySettings_getattr_def ExpiringDict_get_def with_cache_same)
next
  assume a: "\<not> startswith name ''_''
      \<and> name \<notin> {''create_date'', ''data'', ''id'', ''objects'', ''pk'', ''update_date''}
      \<and> map_of (django w) name = None \<and> \<not> prefix_set self
      \<and> custom sch uc w self = Inr (r, w') \<and> data r = VDict d"
  then have n: "is_setting_name name" by (simp add: is_setting_name_def possible_names_def)
  have s: "Settings_setattr r name v = Return (r\<lparr>data := VDict (AList.update name v d)\<rparr>)"
    using a n by (cases d) (simp_all add: Settings_setattr_def)
  show "LazySettings_setattr sch uc w self name v =
          (case save sch uc w' (r\<lparr>data := VDict (AList.update name v d)\<rparr>) of
             Inl e \<Rightarrow> (Raise e, w')
           | Inr (r', w2) \<Rightarrow> (Return (), w2\<lparr>cache := AList.delete CACHE_KEY (cache w2)\<rparr>))"
    using a s by (simp add: LazySettings_setattr_def split: sum.splits)
next
  assume a: "\<not> startswith name ''_''
      \<and> name \<notin> {''create_date'', ''data'', ''id'', ''objects'', ''pk'', ''update_date''}
      \<and> map_of (django w) name = None
      \<and> custom sch uc w self = Inr (r, w') \<and> data r = VDict d \<and> map_of d name = None"
  then have n: "is_setting_name name" by (simp add: is_setting_name_def possible_names_def)
  have s: "Settings_delattr r name = Return r"
    using a n by (simp add: Settings_delattr_def)
  show "LazySettings_delattr sch uc w self name =
          (case save sch uc w' r of
             Inl e \<Rightarrow> (Raise e, w')
           | Inr (r', w2) \<Rightarrow> (Return (), w2\<lparr>cache := AList.delete CACHE_KEY (cache w2)\<rparr>))"
    using a s by (simp add: LazySettings_delattr_def split: sum.splits)
qed

theorem unknown_name_read_fails_witness:
  "LazySettings_getattr [] (\<lambda>ex rows s. []) 0
      \<lparr>django = [], cache = [], db = [\<lparr>pk = Some 1, data = VDict [(''A'', VInt 1)]\<rparr>]\<rparr>
      (LazySettings [] None None []) ''NOPE''
     = (Inl (UnknownSetting ''NOPE''), LazySettings [] None None [],
        \<lparr>django = [],
         cache = [(CACHE_KEY, \<lparr>pk = Some 1, data = VDict [(''A'', VInt 1)]\<rparr>)],
         db = [\<lparr>pk = Some 1, data = VDict [(''A'', VInt 1)]\<rparr>]\<rparr>)
   \<and> LazySettings_setattr [] (\<lambda>ex rows s. [])
      \<lparr>django = [], cache = [], db = [\<lparr>pk = Some 1, data = VDict [(''A'', VInt 1)]\<rparr>]\<rparr>
      (LazySettings [] None None []) ''NOPE'' (VInt 2)
     = (Return (), \<lparr>django = [], cache = [],
          db = [\<lparr>pk = Some 1, data = VDict [(''A'', VInt 1), (''NOPE'', VInt 2)]\<rparr>]\<rparr>)
   \<and> LazySettings_delattr [] (\<lambda>ex rows s. [])
      \<lparr>django = [], cache = [], db = [\<lparr>pk = Some 1, data = VDict [(''A'', VInt 1)]\<rparr>]\<rparr>
      (LazySettings [] None None []) ''NOPE''
     = (Return (), \<lparr>django = [], cache = [],
          db = [\<lparr>pk = Some 1, data = VDict [(''A'', VInt 1)]\<rparr>]\<rparr>)"
  using unknown_name_read_fails[where name="''NOPE''" and sch="[]" and uc="\<lambda>ex rows s. []"
      and now=0 and v="VInt 2" and self="LazySettings [] None None []"
      and w="\<lparr>django = [], cache = [], db = [\<lparr>pk = Some 1, data = VDict [(''A'', VInt 1)]\<rparr>]\<rparr>"
      and r="\<lparr>pk = Some 1, data = VDict [(''A'', VInt 1)]\<rparr>" and d="[(''A'', VInt 1)]"
      and w'="\<lparr>django = [],
         cache = [(CACHE_KEY, \<lparr>pk = Some 1, data = VDict [(''A'', VInt 1)]\<rparr>)],
         db = [\<lparr>pk = Some 1, data = VDict [(''A'', VInt 1)]\<rparr>]\<rparr>"]
  by (simp add: world_eval_defs)

text \<open>
  The claim as stated fails for writing and deleting: neither checks the name. On an
  empty table, writing the unknown name \<open>NOPE\<close> stores it and deleting it saves the
  record unchanged; both return normally.
\<close>

theorem unknown_name_written_and_deleted:
  "LazySettings_setattr [] (\<lambda>ex rows s. []) \<lparr>django = [], cache = [], db = []\<rparr>
      (LazySettings [] None None []) ''NOPE'' (VInt 1)
     = (Return (), \<lparr>django = [], cache = [],
                    db = [\<lparr>pk = Some 1, data = VDict [(''NOPE'', VInt 1)]\<rparr>]\<rparr>)
   \<and> LazySettings_delattr [] (\<lambda>ex rows s. []) \<lparr>django = [], cache = [], db = []\<rparr>
      (LazySettings [] None None []) ''NOPE''
     = (Return (), \<lparr>django = [], cache = [], db = [\<lparr>pk = Some 1, data = VDict []\<rparr>]\<rparr>)"
  by (simp add: world_eval_defs)

end
